theory Spec2Isabelle
  imports Main
begin

section \<open>Values of the Python program\<close>

text \<open>
  A Python \<open>str\<close> is a sequence of Unicode code points, so it is modelled as a list of
  naturals (Isabelle's \<open>char\<close> is a byte and cannot hold the Cyrillic literals of
  \<open>main.py\<close>). The library functions \<open>str.lower\<close>, \<open>str.isdigit\<close> and \<open>int\<close> are
  modelled on Basic Latin (below 128) and the Cyrillic letters U+0400 to U+045F, where they
  act character by character exactly as defined here.

  A naive \<open>datetime\<close> is the number of microseconds since 0001-01-01T00:00:00 and a
  \<open>timedelta\<close> is a number of microseconds; \<open>isoformat\<close> followed by
  \<open>fromisoformat\<close> is the identity on them, so the text column \<open>ban_until\<close> holds the
  datetime itself.
\<close>

type_synonym pystr = "nat list"
type_synonym datetime = int
type_synonym timedelta = int

datatype exn =
    OverflowError
  | TypeError
  | AttributeError
  | IntegrityError
  | TelegramForbiddenError
  | TelegramRetryAfter int
  | TelegramBadRequest
  | TelegramNetworkError

definition lower_char :: "nat \<Rightarrow> nat" where
  "lower_char c =
     (if 65 \<le> c \<and> c \<le> 90 then c + 32
      else if 1024 \<le> c \<and> c \<le> 1039 then c + 80
      else if 1040 \<le> c \<and> c \<le> 1071 then c + 32
      else c)"

definition lower :: "pystr \<Rightarrow> pystr" where
  "lower s = map lower_char s"

definition isdigit :: "nat \<Rightarrow> bool" where
  "isdigit c = (48 \<le> c \<and> c \<le> 57)"

text \<open>
  \<open>int(num)\<close> on a string of decimal digits. The argument is part of one Telegram
  message of at most 4096 characters, below the length at which \<open>int\<close> refuses a string.
\<close>

definition py_int :: "pystr \<Rightarrow> int" where
  "py_int num = foldl (\<lambda>a c. 10 * a + (int c - 48)) 0 num"

text \<open>\<open>str(n)\<close> for an integer, as the f-strings of the source render it.\<close>

fun digits_of :: "nat \<Rightarrow> pystr" where
  "digits_of n = (if n < 10 then [48 + n] else digits_of (n div 10) @ [48 + n mod 10])"

definition py_str :: "int \<Rightarrow> pystr" where
  "py_str i = (if i < 0 then 45 # digits_of (nat (- i)) else digits_of (nat i))"

text \<open>\<open>' '.join(parts)\<close>.\<close>

fun join_space :: "pystr list \<Rightarrow> pystr" where
  "join_space [] = []"
| "join_space [p] = p"
| "join_space (p # q # ps) = p @ 32 # join_space (q # ps)"

text \<open>
  \<open>timedelta(seconds=n)\<close> normalises to days, seconds and microseconds and raises
  \<open>OverflowError\<close> when the number of days exceeds 999999999 in magnitude.
\<close>

definition timedelta_seconds :: "int \<Rightarrow> exn + timedelta" where
  "timedelta_seconds n =
     (if n div 86400 > 999999999 \<or> n div 86400 < - 999999999 then Inl OverflowError
      else Inr (n * 1000000))"

text \<open>
  \<open>int(td.total_seconds())\<close>: the float quotient by \<open>10**6\<close>, truncated towards zero.
\<close>

definition total_seconds_int :: "timedelta \<Rightarrow> int" where
  "total_seconds_int td = (if 0 \<le> td then td div 1000000 else - ((- td) div 1000000))"

text \<open>
  \<open>datetime + timedelta\<close> raises \<open>OverflowError\<close> outside years 1 to 9999;
  \<open>datetime.max\<close> is the last microsecond of day 3652059.
\<close>

definition datetime_max :: datetime where
  "datetime_max = 3652059 * 86400 * 1000000 - 1"

definition datetime_add :: "datetime \<Rightarrow> timedelta \<Rightarrow> exn + datetime" where
  "datetime_add t d = (if t + d < 0 \<or> datetime_max < t + d then Inl OverflowError else Inr (t + d))"

section \<open>Duration tokens\<close>

text \<open>
  The Cyrillic literal that \<open>parse_time\<close> compares the lowered token with (the word for
  "permanently"), as code points U+043F U+0435 U+0440 U+043C U+0430 U+043D U+0435 U+043D
  U+0442 U+043D U+043E.
\<close>

definition PERMANENT :: pystr where
  "PERMANENT = [1087, 1077, 1088, 1084, 1072, 1085, 1077, 1085, 1090, 1085, 1086]"

text \<open>The dictionary \<open>multipliers\<close>, keyed by \<open>d\<close>, \<open>h\<close>, \<open>m\<close> and \<open>s\<close>.\<close>

definition multipliers :: "nat \<rightharpoonup> int" where
  "multipliers = [100 \<mapsto> 86400, 104 \<mapsto> 3600, 109 \<mapsto> 60, 115 \<mapsto> 1]"

text \<open>
  The \<open>for char in time_str\<close> loop with its two locals \<open>total_seconds\<close> and \<open>num\<close>.
  \<open>None\<close> is the early \<open>return None\<close>; the end of the string yields the total.
\<close>

fun parse_loop :: "pystr \<Rightarrow> int \<Rightarrow> pystr \<Rightarrow> int option" where
  "parse_loop [] total_seconds num = Some total_seconds"
| "parse_loop (c # cs) total_seconds num =
     (if isdigit c then parse_loop cs total_seconds (num @ [c])
      else (case multipliers c of
              Some k \<Rightarrow>
                (if num \<noteq> [] then parse_loop cs (total_seconds + py_int num * k) []
                 else parse_loop cs total_seconds num)
            | None \<Rightarrow> None))"

text \<open>
  \<open>parse_time\<close> returns \<open>Optional[timedelta]\<close>: Python's \<open>None\<close> stands both for the
  permanent literal and for a token with a foreign character.
\<close>

definition parse_time :: "pystr \<Rightarrow> exn + timedelta option" where
  "parse_time time_str =
     (let s = lower time_str in
      if s = PERMANENT then Inr None
      else (case parse_loop s 0 [] of
              None \<Rightarrow> Inr None
            | Some total_seconds \<Rightarrow>
                (case timedelta_seconds total_seconds of
                   Inl e \<Rightarrow> Inl e
                 | Inr td \<Rightarrow> Inr (Some td))))"

text \<open>
  \<open>format_timedelta\<close>. Its literals are Cyrillic: \<open>FOREVER\<close> is the word returned for
  \<open>None\<close>, and the unit suffixes for days, hours and minutes are the letters U+0434 (1076),
  U+0447 (1095) and U+043C (1084); the default is the digit zero followed by U+043C.
\<close>

definition FOREVER :: pystr where
  "FOREVER = [1085, 1072, 1074, 1089, 1077, 1075, 1076, 1072]"

definition format_timedelta :: "timedelta option \<Rightarrow> pystr" where
  "format_timedelta td_opt =
     (case td_opt of
        None \<Rightarrow> FOREVER
      | Some td \<Rightarrow>
          (let total_seconds = total_seconds_int td;
               days = total_seconds div 86400;
               hours = (total_seconds mod 86400) div 3600;
               minutes = (total_seconds mod 3600) div 60;
               parts = (if days > 0 then [py_str days @ [1076]] else [])
                     @ (if hours > 0 then [py_str hours @ [1095]] else [])
                     @ (if minutes > 0 then [py_str minutes @ [1084]] else [])
           in if parts \<noteq> [] then join_space parts else [48, 1084]))"

section \<open>The local store\<close>

text \<open>
  The tables of \<open>DatabaseManager.initialize\<close> that the modelled code writes. A row of
  \<open>users\<close> keeps every column; \<open>user_id\<close> is the primary key, \<open>anon_id\<close> and
  \<open>topic_id\<close> are declared \<open>UNIQUE\<close> (SQLite lets any number of rows hold \<open>NULL\<close>).
  The integer columns \<open>is_banned\<close> and \<open>is_active\<close> only ever receive 0 or 1 and are
  booleans here. The remote mirror is not modelled: every call to it sits in its own
  \<open>try/except\<close> after the local commit and never touches the local store.
\<close>

record user =
  user_id :: int
  anon_id :: pystr
  topic_id :: "int option"
  referrer_id :: "int option"
  warns :: int
  is_banned :: bool
  ban_until :: "datetime option"
  ban_reason :: "pystr option"
  is_active :: bool
  msg_count :: int
  created_at :: datetime
  last_seen :: datetime

record warn_row =
  warn_user_id :: int
  warn_admin_id :: int
  warn_reason :: pystr
  warn_created_at :: datetime

record broadcast_row =
  bc_admin_id :: int
  bc_message_type :: pystr
  bc_content :: pystr
  sent_count :: int
  failed_count :: int

record db =
  users :: "user list"
  warns_history :: "warn_row list"
  referrals :: "(int \<times> int) list"
  broadcast_messages :: "broadcast_row list"

definition empty_db :: db where
  "empty_db = \<lparr>users = [], warns_history = [], referrals = [], broadcast_messages = []\<rparr>"

text \<open>Truth value of an optional integer in a Python condition: \<open>None\<close> and 0 are false.\<close>

definition truthy :: "int option \<Rightarrow> bool" where
  "truthy x = (case x of None \<Rightarrow> False | Some n \<Rightarrow> n \<noteq> 0)"

text \<open>\<open>UPDATE users SET ... WHERE user_id = ?\<close>.\<close>

definition update_users :: "int \<Rightarrow> (user \<Rightarrow> user) \<Rightarrow> db \<Rightarrow> db" where
  "update_users uid f d = d\<lparr>users := map (\<lambda>r. if user_id r = uid then f r else r) (users d)\<rparr>"

text \<open>The prefix \<open>"USER-"\<close> of a generated \<open>anon_id\<close>.\<close>

definition USER_PREFIX :: pystr where
  "USER_PREFIX = [85, 83, 69, 82, 45]"

text \<open>
  \<open>register\<close>. The five characters drawn by \<open>random.choices\<close> are the argument
  \<open>suffix\<close>; the insert fails with \<open>IntegrityError\<close> when the drawn \<open>anon_id\<close> is
  taken. Rows are kept in key order, as SQLite stores a table with an integer primary key.
\<close>

definition register :: "db \<Rightarrow> int \<Rightarrow> int option \<Rightarrow> pystr \<Rightarrow> datetime \<Rightarrow> exn + db" where
  "register d uid rid suffix now =
     (if \<not> list_ex (\<lambda>r. user_id r = uid) (users d) then
        (let aid = USER_PREFIX @ suffix in
         if list_ex (\<lambda>r. anon_id r = aid) (users d) then Inl IntegrityError
         else Inr (d\<lparr>users := insort_key user_id
                      \<lparr>user_id = uid, anon_id = aid, topic_id = None, referrer_id = rid,
                       warns = 0, is_banned = False, ban_until = None, ban_reason = None,
                       is_active = True, msg_count = 0, created_at = now, last_seen = now\<rparr>
                      (users d),
                    referrals :=
                      (case rid of
                         None \<Rightarrow> referrals d
                       | Some r \<Rightarrow>
                           if r \<noteq> 0 \<and> (r, uid) \<notin> set (referrals d) then referrals d @ [(r, uid)]
                           else referrals d)\<rparr>))
      else Inr (update_users uid (\<lambda>r. r\<lparr>last_seen := now\<rparr>) d))"

definition get_user :: "db \<Rightarrow> int option \<Rightarrow> int option \<Rightarrow> user option" where
  "get_user d uid tid =
     (if truthy uid then find (\<lambda>r. Some (user_id r) = uid) (users d)
      else if truthy tid then find (\<lambda>r. topic_id r = tid) (users d)
      else None)"

text \<open>
  \<open>add_warn\<close>: the increment, the read of the new count and the audit row are committed
  together. On a missing user \<open>fetchone()\<close> is \<open>None\<close>, its subscript raises before the
  commit and nothing is stored.
\<close>

definition add_warn :: "db \<Rightarrow> int \<Rightarrow> int \<Rightarrow> pystr \<Rightarrow> datetime \<Rightarrow> exn + (db \<times> int)" where
  "add_warn d uid admin_id reason now =
     (let d1 = update_users uid (\<lambda>r. r\<lparr>warns := warns r + 1\<rparr>) d in
      case find (\<lambda>r. user_id r = uid) (users d1) of
        None \<Rightarrow> Inl TypeError
      | Some r \<Rightarrow>
          Inr (d1\<lparr>warns_history := warns_history d1 @
                    [\<lparr>warn_user_id = uid, warn_admin_id = admin_id, warn_reason = reason,
                      warn_created_at = now\<rparr>]\<rparr>,
               warns r))"

definition close_ticket :: "db \<Rightarrow> int \<Rightarrow> db" where
  "close_ticket d uid = update_users uid (\<lambda>r. r\<lparr>topic_id := None\<rparr>) d"

definition increment_message_count :: "db \<Rightarrow> int \<Rightarrow> datetime \<Rightarrow> db" where
  "increment_message_count d uid now =
     update_users uid (\<lambda>r. r\<lparr>msg_count := msg_count r + 1, last_seen := now\<rparr>) d"

definition update_user_ban :: "db \<Rightarrow> int \<Rightarrow> bool \<Rightarrow> datetime option \<Rightarrow> pystr option \<Rightarrow> db" where
  "update_user_ban d uid banned until reason =
     update_users uid (\<lambda>r. r\<lparr>is_banned := banned, ban_until := until, ban_reason := reason\<rparr>) d"

definition get_all_active_users :: "db \<Rightarrow> int list" where
  "get_all_active_users d = map user_id (filter (\<lambda>r. is_active r \<and> \<not> is_banned r) (users d))"

definition save_broadcast_stats :: "db \<Rightarrow> int \<Rightarrow> pystr \<Rightarrow> pystr \<Rightarrow> int \<Rightarrow> int \<Rightarrow> db" where
  "save_broadcast_stats d admin_id message_type content sent failed =
     d\<lparr>broadcast_messages := broadcast_messages d @
         [\<lparr>bc_admin_id = admin_id, bc_message_type = message_type, bc_content = content,
           sent_count = sent, failed_count = failed\<rparr>]\<rparr>"

text \<open>
  The statement \<open>UPDATE users SET topic_id = ? WHERE user_id = ?\<close> of \<open>init_ticket\<close>.
  The \<open>UNIQUE\<close> constraint on \<open>topic_id\<close> makes it fail when the row exists and another
  row already holds the value.
\<close>

definition set_topic :: "db \<Rightarrow> int \<Rightarrow> int \<Rightarrow> exn + db" where
  "set_topic d tid uid =
     (if list_ex (\<lambda>r. user_id r = uid) (users d)
         \<and> list_ex (\<lambda>r. user_id r \<noteq> uid \<and> topic_id r = Some tid) (users d)
      then Inl IntegrityError
      else Inr (update_users uid (\<lambda>r. r\<lparr>topic_id := Some tid\<rparr>) d))"

text \<open>
  The statement \<open>UPDATE users SET is_active = 0 WHERE user_id = ?\<close> of the broadcast loop
  and of the staff-to-user gateway.
\<close>

definition mark_inactive :: "db \<Rightarrow> int \<Rightarrow> db" where
  "mark_inactive d uid = update_users uid (\<lambda>r. r\<lparr>is_active := False\<rparr>) d"

section \<open>The transport and the effects of a handler\<close>

text \<open>
  The bodies of the messages the bot sends are long formatted literals; a \<open>notice\<close> names
  the template and carries the values interpolated into it (dates and timings left out).
\<close>

datatype notice =
    BanUsage
  | WarnUsage
  | UserNotFound
  | WarnIssued pystr int pystr
  | WarnNotify int pystr
  | WarnLimitReached
  | WarnLimitBanned
  | BanIssued pystr pystr pystr
  | BanNotifyTimed pystr pystr
  | BanNotifyPermanent pystr
  | UnbanDone pystr
  | UnbanNotify
  | BanRemaining int int "pystr option"
  | BanForever
  | TicketClosed pystr int
  | TicketCard pystr pystr int int int
  | CategoryChosen pystr
  | AwaitingMessage
  | TicketFailed
  | BroadcastStarting
  | ProgressStart int
  | Progress int int int int
  | BroadcastDone int int int

text \<open>
  What a handler does to the outside, in the order it does it. \<open>Answer\<close> is
  \<open>message.answer\<close> on the incoming message, \<open>SendMessage\<close> is \<open>bot.send_message\<close> with
  its chat and optional thread, \<open>EditText\<close> edits the message of a callback,
  \<open>EditProgress\<close> and \<open>DeleteProgress\<close> act on the progress message of a broadcast,
  \<open>CopyMessageToUser\<close> is one call of \<open>copy_message_to_user\<close> (which lets every exception
  through), and \<open>Sleep\<close> is \<open>asyncio.sleep\<close> with its argument in milliseconds.
\<close>

datatype effect =
    Answer notice
  | SendMessage int "int option" notice
  | CreateForumTopic int pystr
  | CopyMessageToUser int
  | EditText notice
  | EditProgress notice
  | DeleteProgress
  | SendChatAction int
  | AnswerCallback
  | Sleep int

text \<open>
  The transport is outside the program. It answers the call made after \<open>n\<close> earlier
  effects either with a value (the thread id for \<open>CreateForumTopic\<close>, a message id
  otherwise) or with the exception it raises.
\<close>

type_synonym transport = "nat \<Rightarrow> effect \<Rightarrow> exn + int"

datatype bot_state =
    choosing_category
  | writing_issue
  | rev_adm
  | rev_rate
  | rev_msg
  | broadcasting
  | broadcast_confirm

record world =
  store :: db
  trace :: "effect list"
  fsm :: "int \<rightharpoonup> bot_state"

record config =
  OWNER_ID :: int
  ADMIN_GROUP_ID :: int

text \<open>
  A coroutine of the source runs on the world and either returns a value or raises; what it
  stored and sent before raising stays.
\<close>

type_synonym 'a io = "world \<Rightarrow> (exn + 'a) \<times> world"

definition io_return :: "'a \<Rightarrow> 'a io" where
  "io_return x w = (Inr x, w)"

definition io_raise :: "exn \<Rightarrow> 'a io" where
  "io_raise e w = (Inl e, w)"

definition io_bind :: "'a io \<Rightarrow> ('a \<Rightarrow> 'b io) \<Rightarrow> 'b io" where
  "io_bind m f w = (case m w of (Inl e, w1) \<Rightarrow> (Inl e, w1) | (Inr x, w1) \<Rightarrow> f x w1)"

text \<open>\<open>try: m except Exception as e: h e\<close>.\<close>

definition io_try :: "'a io \<Rightarrow> (exn \<Rightarrow> 'a io) \<Rightarrow> 'a io" where
  "io_try m h w = (case m w of (Inl e, w1) \<Rightarrow> h e w1 | (Inr x, w1) \<Rightarrow> (Inr x, w1))"

definition io_call :: "transport \<Rightarrow> effect \<Rightarrow> int io" where
  "io_call T e w = (T (length (trace w)) e, w\<lparr>trace := trace w @ [e]\<rparr>)"

definition io_sleep :: "int \<Rightarrow> unit io" where
  "io_sleep ms w = (Inr (), w\<lparr>trace := trace w @ [Sleep ms]\<rparr>)"

definition io_read :: "(db \<Rightarrow> 'a) \<Rightarrow> 'a io" where
  "io_read f w = (Inr (f (store w)), w)"

definition io_write :: "(db \<Rightarrow> db) \<Rightarrow> unit io" where
  "io_write f w = (Inr (), w\<lparr>store := f (store w)\<rparr>)"

definition io_exec :: "(db \<Rightarrow> exn + db) \<Rightarrow> unit io" where
  "io_exec f w = (case f (store w) of Inl e \<Rightarrow> (Inl e, w) | Inr d \<Rightarrow> (Inr (), w\<lparr>store := d\<rparr>))"

definition io_query :: "(db \<Rightarrow> exn + (db \<times> 'a)) \<Rightarrow> 'a io" where
  "io_query f w =
     (case f (store w) of Inl e \<Rightarrow> (Inl e, w) | Inr (d, x) \<Rightarrow> (Inr x, w\<lparr>store := d\<rparr>))"

definition io_set_state :: "int \<Rightarrow> bot_state \<Rightarrow> unit io" where
  "io_set_state uid st w = (Inr (), w\<lparr>fsm := (fsm w)(uid \<mapsto> st)\<rparr>)"

definition io_clear_state :: "int \<Rightarrow> unit io" where
  "io_clear_state uid w = (Inr (), w\<lparr>fsm := (fsm w)(uid := None)\<rparr>)"

section \<open>The guard middleware and the dispatcher\<close>

datatype chat_type = Private | Group | Supergroup | Channel

record message =
  from_user :: "int option"
  chat_type :: chat_type
  message_thread_id :: "int option"

record callback_query =
  cq_from_user :: int
  cq_chat_id :: int
  cq_data :: pystr

text \<open>
  \<open>GuardMiddleware.__call__\<close>. The three readings of \<open>datetime.now()\<close> are arguments: the
  one inside \<open>register\<close>, the one compared with \<open>ban_until\<close>, and the one subtracted for
  the remaining time. \<open>suffix\<close> is the random part of a fresh \<open>anon_id\<close>. The result is
  \<open>Some\<close> of the handler's result when the handler was awaited and \<open>None\<close> for the bare
  \<open>return\<close>. Hours and minutes are the floor quotients of \<open>total_seconds()\<close>, a float
  that is exact for a difference of whole microseconds below \<open>2**32\<close> seconds.
\<close>

definition GuardMiddleware ::
  "transport \<Rightarrow> pystr \<Rightarrow> datetime \<Rightarrow> datetime \<Rightarrow> datetime \<Rightarrow>
     (message \<Rightarrow> 'a io) \<Rightarrow> message \<Rightarrow> 'a option io" where
  "GuardMiddleware T suffix now_reg now_chk now_rem handler event =
     (let pass = io_bind (handler event) (\<lambda>r. io_return (Some r)) in
      case from_user event of
        None \<Rightarrow> pass
      | Some uid \<Rightarrow>
          if chat_type event \<noteq> Private then pass
          else
            io_bind (io_exec (\<lambda>d. register d uid None suffix now_reg)) (\<lambda>_.
            io_bind (io_read (\<lambda>d. get_user d (Some uid) None)) (\<lambda>u.
            case u of
              None \<Rightarrow> pass
            | Some u \<Rightarrow>
                if \<not> is_banned u then pass
                else
                  (case ban_until u of
                     Some ban_time \<Rightarrow>
                       if ban_time < now_chk then
                         io_bind (io_write (\<lambda>d. update_user_ban d uid False None None)) (\<lambda>_. pass)
                       else
                         (let remaining = ban_time - now_rem;
                              hours = remaining div 3600000000;
                              minutes = (remaining mod 3600000000) div 60000000;
                              reason_text =
                                (case ban_reason u of
                                   None \<Rightarrow> None
                                 | Some r \<Rightarrow> if r \<noteq> [] then Some r else None)
                          in io_bind (io_call T (Answer (BanRemaining hours minutes reason_text)))
                               (\<lambda>_. io_return None))
                   | None \<Rightarrow>
                       io_bind (io_call T (Answer BanForever)) (\<lambda>_. io_return None)))))"

datatype update = MessageUpdate message | CallbackQueryUpdate callback_query

text \<open>
  The dispatcher as \<open>main.py\<close> configures it: the only middleware registration is
  \<open>dp.message.middleware(GuardMiddleware())\<close>, so a message reaches its handler through
  the guard and a callback query reaches its handler directly.
\<close>

definition dispatch ::
  "transport \<Rightarrow> pystr \<Rightarrow> datetime \<Rightarrow> datetime \<Rightarrow> datetime \<Rightarrow>
     (message \<Rightarrow> 'a io) \<Rightarrow> (callback_query \<Rightarrow> 'a io) \<Rightarrow> update \<Rightarrow> 'a option io" where
  "dispatch T suffix now_reg now_chk now_rem on_message on_callback_query upd =
     (case upd of
        MessageUpdate m \<Rightarrow> GuardMiddleware T suffix now_reg now_chk now_rem on_message m
      | CallbackQueryUpdate c \<Rightarrow> io_bind (on_callback_query c) (\<lambda>r. io_return (Some r)))"

section \<open>Tickets\<close>

text \<open>The topic title \<open>f"{category} | {anon_id}"\<close>.\<close>

definition topic_name :: "pystr \<Rightarrow> pystr \<Rightarrow> pystr" where
  "topic_name category aid = category @ [32, 124, 32] @ aid"

text \<open>
  \<open>init_ticket\<close>. A failed closure notice is logged and the old ticket is closed all the
  same; any exception of the second \<open>try\<close> block (topic creation, the \<open>UPDATE\<close>, the
  ticket card) makes the function return \<open>None\<close>.
\<close>

definition init_ticket :: "config \<Rightarrow> transport \<Rightarrow> int \<Rightarrow> pystr \<Rightarrow> int option io" where
  "init_ticket cfg T uid category =
     io_bind (io_read (\<lambda>d. get_user d (Some uid) None)) (\<lambda>found.
     case found of
       None \<Rightarrow> io_return None
     | Some user \<Rightarrow>
         io_bind
           (if truthy (topic_id user) then
              io_bind
                (io_try
                   (io_bind
                      (io_call T (SendMessage (ADMIN_GROUP_ID cfg) (topic_id user)
                                    (TicketClosed (anon_id user) uid)))
                      (\<lambda>_. io_return ()))
                   (\<lambda>e. io_return ()))
                (\<lambda>_. io_write (\<lambda>d. close_ticket d uid))
            else io_return ())
           (\<lambda>_.
         io_try
           (io_bind (io_call T (CreateForumTopic (ADMIN_GROUP_ID cfg)
                                  (topic_name category (anon_id user)))) (\<lambda>thread_id.
            io_bind (io_exec (\<lambda>d. set_topic d thread_id uid)) (\<lambda>_.
            io_bind (io_call T (SendMessage (ADMIN_GROUP_ID cfg) (Some thread_id)
                                  (TicketCard category (anon_id user) uid
                                     (msg_count user) (warns user)))) (\<lambda>_.
            io_return (Some thread_id)))))
           (\<lambda>e. io_return None)))"

text \<open>
  \<open>send_with_typing\<close>: the pause is \<open>min(len(text) * 0.03, 2.0)\<close> seconds, and any
  exception of the first attempt leads to one plain \<open>send_message\<close>.
\<close>

definition send_with_typing :: "transport \<Rightarrow> int \<Rightarrow> notice \<Rightarrow> nat \<Rightarrow> unit io" where
  "send_with_typing T chat_id text text_len =
     io_try
       (io_bind (io_call T (SendChatAction chat_id)) (\<lambda>_.
        io_bind (io_sleep (min (30 * int text_len) 2000)) (\<lambda>_.
        io_bind (io_call T (SendMessage chat_id None text)) (\<lambda>_.
        io_return ()))))
       (\<lambda>e. io_bind (io_call T (SendMessage chat_id None text)) (\<lambda>_. io_return ()))"

text \<open>
  \<open>process_cat_callback\<close>, the handler of a callback query whose data starts with
  \<open>cat_\<close>; the category is what follows these four characters. The literal sent by
  \<open>send_with_typing\<close> has 130 characters.
\<close>

definition process_cat_callback :: "config \<Rightarrow> transport \<Rightarrow> callback_query \<Rightarrow> unit io" where
  "process_cat_callback cfg T call =
     (let category = drop 4 (cq_data call) in
      io_bind (io_call T (SendChatAction (cq_chat_id call))) (\<lambda>_.
      io_bind (io_sleep 1000) (\<lambda>_.
      io_bind (init_ticket cfg T (cq_from_user call) category) (\<lambda>tid.
      io_bind
        (if truthy tid then
           io_bind (io_set_state (cq_from_user call) writing_issue) (\<lambda>_.
           io_bind (io_call T (EditText (CategoryChosen category))) (\<lambda>_.
           send_with_typing T (cq_chat_id call) AwaitingMessage 130))
         else io_bind (io_call T (EditText TicketFailed)) (\<lambda>_. io_return ()))
        (\<lambda>_.
      io_bind (io_call T AnswerCallback) (\<lambda>_. io_return ()))))))"

section \<open>Moderation commands\<close>

text \<open>
  The handlers take \<open>parts\<close>, the list \<open>args.split(maxsplit=2)\<close> of the command's
  arguments. The two Cyrillic literals are the default ban reason of \<open>adm_ban\<close> and the
  reason \<open>adm_warn\<close> stores with the automatic ban.
\<close>

definition DEFAULT_REASON :: pystr where
  "DEFAULT_REASON =
     [1053, 1072, 1088, 1091, 1096, 1077, 1085, 1080, 1077, 32, 1087, 1088, 1072, 1074, 1080, 1083]"

definition AUTO_BAN_REASON :: pystr where
  "AUTO_BAN_REASON =
     [51, 32, 1087, 1088, 1077, 1076, 1091, 1087, 1088, 1077, 1078, 1076, 1077, 1085, 1080, 1103]"

definition adm_warn ::
  "config \<Rightarrow> transport \<Rightarrow> datetime \<Rightarrow> message \<Rightarrow> pystr list \<Rightarrow> unit io" where
  "adm_warn cfg T now message parts =
     (case from_user message of
        None \<Rightarrow> io_raise AttributeError
      | Some admin \<Rightarrow>
          if admin \<noteq> OWNER_ID cfg then io_return ()
          else
            (case parts of
               time_str # reason # _ \<Rightarrow>
                 io_bind (io_read (\<lambda>d. get_user d None (message_thread_id message))) (\<lambda>found.
                 case found of
                   None \<Rightarrow> io_bind (io_call T (Answer UserNotFound)) (\<lambda>_. io_return ())
                 | Some u \<Rightarrow>
                     io_bind (io_query (\<lambda>d. add_warn d (user_id u) admin reason now)) (\<lambda>w_count.
                     io_bind (io_call T (Answer (WarnIssued (anon_id u) w_count reason))) (\<lambda>_.
                     io_bind (io_call T (SendMessage (user_id u) None
                                           (WarnNotify w_count reason))) (\<lambda>_.
                     if w_count \<ge> 3 then
                       io_bind (io_write (\<lambda>d. update_user_ban d (user_id u) True None
                                                 (Some AUTO_BAN_REASON))) (\<lambda>_.
                       io_bind (io_call T (Answer WarnLimitReached)) (\<lambda>_.
                       io_bind (io_call T (SendMessage (user_id u) None WarnLimitBanned)) (\<lambda>_.
                       io_return ())))
                     else io_return ()))))
             | _ \<Rightarrow> io_bind (io_call T (Answer WarnUsage)) (\<lambda>_. io_return ())))"

definition adm_ban ::
  "config \<Rightarrow> transport \<Rightarrow> datetime \<Rightarrow> message \<Rightarrow> pystr list \<Rightarrow> unit io" where
  "adm_ban cfg T now message parts =
     (case from_user message of
        None \<Rightarrow> io_raise AttributeError
      | Some admin \<Rightarrow>
          if admin \<noteq> OWNER_ID cfg then io_return ()
          else
            (case parts of
               [] \<Rightarrow> io_bind (io_call T (Answer BanUsage)) (\<lambda>_. io_return ())
             | time_str # rest \<Rightarrow>
                 (let reason = (case rest of [] \<Rightarrow> DEFAULT_REASON | r # _ \<Rightarrow> r) in
                  io_bind (io_read (\<lambda>d. get_user d None (message_thread_id message))) (\<lambda>found.
                  case found of
                    None \<Rightarrow> io_bind (io_call T (Answer UserNotFound)) (\<lambda>_. io_return ())
                  | Some u \<Rightarrow>
                      (case parse_time time_str of
                         Inl e \<Rightarrow> io_raise e
                       | Inr ban_duration \<Rightarrow>
                           (case (case ban_duration of
                                    None \<Rightarrow> Inr (None, FOREVER)
                                  | Some td \<Rightarrow>
                                      (case datetime_add now td of
                                         Inl e \<Rightarrow> Inl e
                                       | Inr t \<Rightarrow> Inr (Some t, format_timedelta ban_duration))) of
                              Inl e \<Rightarrow> io_raise e
                            | Inr (until, ban_duration_text) \<Rightarrow>
                                io_bind (io_write (\<lambda>d. update_user_ban d (user_id u) True until
                                                          (Some reason))) (\<lambda>_.
                                io_bind (io_call T (Answer (BanIssued (anon_id u)
                                                      ban_duration_text reason))) (\<lambda>_.
                                io_bind (io_call T (SendMessage (user_id u) None
                                                      (if until \<noteq> None
                                                       then BanNotifyTimed ban_duration_text reason
                                                       else BanNotifyPermanent reason))) (\<lambda>_.
                                io_return ())))))))))"

definition adm_unban :: "config \<Rightarrow> transport \<Rightarrow> message \<Rightarrow> unit io" where
  "adm_unban cfg T message =
     (case from_user message of
        None \<Rightarrow> io_raise AttributeError
      | Some admin \<Rightarrow>
          if admin \<noteq> OWNER_ID cfg then io_return ()
          else
            io_bind (io_read (\<lambda>d. get_user d None (message_thread_id message))) (\<lambda>found.
            case found of
              None \<Rightarrow> io_bind (io_call T (Answer UserNotFound)) (\<lambda>_. io_return ())
            | Some u \<Rightarrow>
                io_bind (io_write (\<lambda>d. update_user_ban d (user_id u) False None None)) (\<lambda>_.
                io_bind (io_call T (Answer (UnbanDone (anon_id u)))) (\<lambda>_.
                io_bind (io_call T (SendMessage (user_id u) None UnbanNotify)) (\<lambda>_.
                io_return ())))))"

section \<open>Broadcast\<close>

text \<open>The locals \<open>success\<close>, \<open>failed\<close> and \<open>index\<close> of \<open>confirm_broadcast\<close>.\<close>

record counters =
  success :: int
  failed :: int
  index :: int

text \<open>
  The three \<open>except\<close> clauses of the loop, in their order. In the clause for
  \<open>TelegramRetryAfter\<close> the loop sleeps \<open>e.retry_after\<close> seconds and decrements its
  local \<open>index\<close>.
\<close>

definition on_broadcast_error :: "exn \<Rightarrow> int \<Rightarrow> world \<times> counters \<Rightarrow> world \<times> counters" where
  "on_broadcast_error e uid s =
     (case s of (w, c) \<Rightarrow>
        (case e of
           TelegramForbiddenError \<Rightarrow>
             (w\<lparr>store := mark_inactive (store w) uid\<rparr>, c\<lparr>failed := failed c + 1\<rparr>)
         | TelegramRetryAfter retry_after \<Rightarrow>
             (w\<lparr>trace := trace w @ [Sleep (1000 * retry_after)]\<rparr>, c\<lparr>index := index c - 1\<rparr>)
         | _ \<Rightarrow> (w, c\<lparr>failed := failed c + 1\<rparr>)))"

text \<open>
  One pass through the body of \<open>for index, user_id in enumerate(user_ids, 1)\<close>: the
  \<open>for\<close> statement binds \<open>index\<close> to the number that \<open>enumerate\<close> yields, then the
  \<open>try\<close> block runs with the progress edit inside it.
\<close>

definition broadcast_iteration ::
  "transport \<Rightarrow> int \<Rightarrow> nat \<times> int \<Rightarrow> world \<times> counters \<Rightarrow> world \<times> counters" where
  "broadcast_iteration T total_users item s =
     (case item of (i, uid) \<Rightarrow>
      case s of (w, c) \<Rightarrow>
        (let c0 = c\<lparr>index := int i\<rparr> in
         case io_call T (CopyMessageToUser uid) w of
           (Inl e, w1) \<Rightarrow> on_broadcast_error e uid (w1, c0)
         | (Inr _, w1) \<Rightarrow>
             (let c1 = c0\<lparr>success := success c0 + 1\<rparr> in
              if index c1 mod 10 = 0 then
                (case io_call T (EditProgress (Progress (index c1) total_users (success c1) (failed c1)))
                        w1 of
                   (Inl e, w2) \<Rightarrow> on_broadcast_error e uid (w2, c1)
                 | (Inr _, w2) \<Rightarrow> (w2\<lparr>trace := trace w2 @ [Sleep 50]\<rparr>, c1))
              else (w1, c1))))"

definition broadcast_loop ::
  "transport \<Rightarrow> int \<Rightarrow> int list \<Rightarrow> world \<times> counters \<Rightarrow> world \<times> counters" where
  "broadcast_loop T total_users user_ids s =
     foldl (\<lambda>s item. broadcast_iteration T total_users item s) s (enumerate 1 user_ids)"

record broadcast_message =
  bm_content_type :: pystr
  bm_text :: "pystr option"
  bm_caption :: "pystr option"

text \<open>\<open>message_to_send.text or message_to_send.caption or ""\<close>.\<close>

definition broadcast_content :: "broadcast_message \<Rightarrow> pystr" where
  "broadcast_content m =
     (case bm_text m of
        Some t \<Rightarrow> if t \<noteq> [] then t else (case bm_caption m of Some c \<Rightarrow> c | None \<Rightarrow> [])
      | None \<Rightarrow> (case bm_caption m of Some c \<Rightarrow> c | None \<Rightarrow> []))"

text \<open>
  \<open>confirm_broadcast\<close>; the message kept in the FSM data is the argument
  \<open>message_to_send\<close>. The snapshot of recipients is read once, before the loop.
\<close>

definition confirm_broadcast ::
  "transport \<Rightarrow> callback_query \<Rightarrow> broadcast_message \<Rightarrow> unit io" where
  "confirm_broadcast T call message_to_send =
     io_bind (io_call T (EditText BroadcastStarting)) (\<lambda>_.
     io_bind (io_read get_all_active_users) (\<lambda>user_ids.
     (let total_users = int (length user_ids) in
      io_bind (io_call T (Answer (ProgressStart total_users))) (\<lambda>_ w.
        (case broadcast_loop T total_users user_ids (w, \<lparr>success = 0, failed = 0, index = 0\<rparr>) of
           (w1, c) \<Rightarrow>
             io_bind (io_write (\<lambda>d. save_broadcast_stats d (cq_from_user call)
                                       (bm_content_type message_to_send)
                                       (broadcast_content message_to_send)
                                       (success c) (failed c))) (\<lambda>_.
             io_bind (io_call T DeleteProgress) (\<lambda>_.
             io_bind (io_call T (Answer (BroadcastDone total_users (success c) (failed c)))) (\<lambda>_.
             io_clear_state (cq_from_user call)))) w1)))))"

section \<open>Reachable stores\<close>

text \<open>
  The store starts empty and changes only through the statements modelled above, which are
  all the statements of \<open>main.py\<close> that write the tables of the model.
\<close>

inductive reachable :: "db \<Rightarrow> bool" where
  reach_init: "reachable empty_db"
| reach_register: "reachable d \<Longrightarrow> register d uid rid suffix now = Inr d' \<Longrightarrow> reachable d'"
| reach_warn: "reachable d \<Longrightarrow> add_warn d uid admin_id reason now = Inr (d', n) \<Longrightarrow> reachable d'"
| reach_close: "reachable d \<Longrightarrow> reachable (close_ticket d uid)"
| reach_count: "reachable d \<Longrightarrow> reachable (increment_message_count d uid now)"
| reach_ban: "reachable d \<Longrightarrow> reachable (update_user_ban d uid banned until reason)"
| reach_topic: "reachable d \<Longrightarrow> set_topic d tid uid = Inr d' \<Longrightarrow> reachable d'"
| reach_inactive: "reachable d \<Longrightarrow> reachable (mark_inactive d uid)"
| reach_stats:
    "reachable d \<Longrightarrow> reachable (save_broadcast_stats d admin_id message_type content n_sent n_failed)"

text \<open>The thread ids present in the store, one entry for each row that holds one.\<close>

definition thread_ids :: "db \<Rightarrow> int list" where
  "thread_ids d = List.map_filter topic_id (users d)"

section \<open>Scenarios\<close>

text \<open>
  Concrete inputs for the closed statements below: a row as \<open>register\<close> creates it, with a
  thread and a warn count; a store of such rows; a world over it with nothing sent yet; the
  owner's command issued inside a thread; and a transport on which every call succeeds.
\<close>

definition sample_user :: "int \<Rightarrow> int option \<Rightarrow> int \<Rightarrow> user" where
  "sample_user uid thread n =
     \<lparr>user_id = uid, anon_id = USER_PREFIX @ digits_of (nat uid), topic_id = thread,
      referrer_id = None, warns = n, is_banned = False, ban_until = None, ban_reason = None,
      is_active = True, msg_count = 0, created_at = 0, last_seen = 0\<rparr>"

definition sample_world :: "user list \<Rightarrow> world" where
  "sample_world rows =
     \<lparr>store = \<lparr>users = rows, warns_history = [], referrals = [], broadcast_messages = []\<rparr>,
      trace = [], fsm = Map.empty\<rparr>"

definition sample_config :: config where
  "sample_config = \<lparr>OWNER_ID = 1, ADMIN_GROUP_ID = - 100\<rparr>"

definition owner_command :: "int \<Rightarrow> message" where
  "owner_command thread = \<lparr>from_user = Some 1, chat_type = Supergroup, message_thread_id = Some thread\<rparr>"

definition reliable :: transport where
  "reliable n e = Inr 0"

text \<open>The recipients of the \<open>copy_message_to_user\<close> calls in a trace, in order.\<close>

fun attempted :: "effect list \<Rightarrow> int list" where
  "attempted [] = []"
| "attempted (CopyMessageToUser u # es) = u # attempted es"
| "attempted (e # es) = attempted es"

text \<open>
  Transports for the broadcast scenarios: one on which user \<open>x\<close> has blocked the bot, one
  that answers the call made after \<open>k\<close> effects with a rate limit and every other call
  with success, and one that refuses every edit of the progress message.
\<close>

definition blocked_by :: "int \<Rightarrow> transport" where
  "blocked_by x n e = (if e = CopyMessageToUser x then Inl TelegramForbiddenError else Inr 0)"

definition limited_once :: "nat \<Rightarrow> int \<Rightarrow> transport" where
  "limited_once k retry_after n e =
     (if n = k then Inl (TelegramRetryAfter retry_after) else Inr 0)"

definition progress_rejected :: transport where
  "progress_rejected n e = (case e of EditProgress p \<Rightarrow> Inl TelegramBadRequest | _ \<Rightarrow> Inr 0)"

definition ten_users :: "int list" where
  "ten_users = [1, 2, 3, 4, 5, 6, 7, 8, 9, 10]"

definition hundred_users :: "int list" where
  "hundred_users = map int [1..<101]"

text \<open>
  A transport on which the deliveries to user \<open>x\<close> are refused because \<open>x\<close> has blocked
  the bot, while every other delivery and every edit of the progress message succeeds.
\<close>

definition only_blocks :: "transport \<Rightarrow> int \<Rightarrow> bool" where
  "only_blocks T x =
     ((\<forall>k. T k (CopyMessageToUser x) = Inl TelegramForbiddenError)
      \<and> (\<forall>k u. u \<noteq> x \<longrightarrow> (\<exists>v. T k (CopyMessageToUser u) = Inr v))
      \<and> (\<forall>k p. \<exists>v. T k (EditProgress p) = Inr v))"



text \<open>A message from a user in the private chat with the bot, and a banned row.\<close>

definition private_message :: "int \<Rightarrow> message" where
  "private_message uid = \<lparr>from_user = Some uid, chat_type = Private, message_thread_id = None\<rparr>"

definition banned_user :: "int \<Rightarrow> datetime option \<Rightarrow> user" where
  "banned_user uid until = (sample_user uid None 0)\<lparr>is_banned := True, ban_until := until\<rparr>"


text \<open>
  A transport that creates every forum topic with the thread id \<open>tid\<close> and lets every
  other call succeed, and the callback query of a user pressing the category button \<open>X\<close>
  (data \<open>cat_X\<close>) in the private chat.
\<close>

definition topic_server :: "int \<Rightarrow> transport" where
  "topic_server tid n e = (case e of CreateForumTopic g name \<Rightarrow> Inr tid | _ \<Rightarrow> Inr 0)"

definition category_pressed :: "int \<Rightarrow> callback_query" where
  "category_pressed uid = \<lparr>cq_from_user = uid, cq_chat_id = uid, cq_data = [99, 97, 116, 95, 88]\<rparr>"

text \<open>
  The two constraints of the schema on \<open>users\<close> that concern identity: the primary key
  \<open>user_id\<close> and the \<open>UNIQUE\<close> column \<open>topic_id\<close>.
\<close>

definition store_ok :: "db \<Rightarrow> bool" where
  "store_ok d = (distinct (map user_id (users d)) \<and> distinct (thread_ids d))"


text \<open>The store in which users 7 and 8 hold the threads 5 and 6.\<close>

definition two_tickets :: db where
  "two_tickets = store (sample_world [sample_user 7 (Some 5) 0, sample_user 8 (Some 6) 0])"

text \<open>
  The owner issuing the warn command several times in the same thread, each call with its
  clock reading and its arguments; a row after one warn whose notices were delivered; the
  notices of one such call; and the arguments \<open>1h spam\<close>.
\<close>

definition warn_run ::
  "config \<Rightarrow> transport \<Rightarrow> message \<Rightarrow> (datetime \<times> pystr list) list \<Rightarrow> world \<Rightarrow> world" where
  "warn_run cfg T m calls w = foldl (\<lambda>w c. snd (adm_warn cfg T (fst c) m (snd c) w)) w calls"

definition after_warn :: "user \<Rightarrow> user" where
  "after_warn u =
     (if 3 \<le> warns u + 1
      then u\<lparr>warns := warns u + 1, is_banned := True, ban_until := None,
             ban_reason := Some AUTO_BAN_REASON\<rparr>
      else u\<lparr>warns := warns u + 1\<rparr>)"

definition warn_notices :: "user \<Rightarrow> pystr \<Rightarrow> effect list" where
  "warn_notices u reason =
     [Answer (WarnIssued (anon_id u) (warns u + 1) reason),
      SendMessage (user_id u) None (WarnNotify (warns u + 1) reason)]
     @ (if 3 \<le> warns u + 1
        then [Answer WarnLimitReached, SendMessage (user_id u) None WarnLimitBanned]
        else [])"

definition spam_warning :: "pystr list" where
  "spam_warning = [[49, 104], [115, 112, 97, 109]]"

text \<open>
  A transport on which user \<open>x\<close> has blocked the bot: every \<open>bot.send_message\<close> to the
  private chat of \<open>x\<close> raises \<open>TelegramForbiddenError\<close> and every other call succeeds.
\<close>

definition user_blocked_bot :: "int \<Rightarrow> transport" where
  "user_blocked_bot x n e =
     (case e of
        SendMessage chat_id thread text \<Rightarrow>
          if chat_id = x then Inl TelegramForbiddenError else Inr 0
      | _ \<Rightarrow> Inr 0)"

section \<open>Unfolding rules\<close>

lemmas io_defs = io_return_def io_raise_def io_bind_def io_try_def io_call_def io_sleep_def
  io_read_def io_write_def io_exec_def io_query_def io_set_state_def io_clear_state_def

lemmas py_defs = lower_def lower_char_def isdigit_def multipliers_def PERMANENT_def py_int_def
  timedelta_seconds_def total_seconds_int_def datetime_add_def datetime_max_def py_str_def

lemmas store_defs = get_user_def truthy_def update_users_def update_user_ban_def close_ticket_def
  mark_inactive_def set_topic_def add_warn_def register_def

lemmas sample_defs = sample_user_def sample_world_def sample_config_def owner_command_def
  reliable_def

section \<open>Duration parsing and the ban command\<close>

text \<open>
  C1. The claim: a duration token that is neither the permanent literal nor of the form
  digits-then-unit, such as \<open>soon\<close>, makes the ban command reject the command and leave
  \<open>is_banned\<close>, \<open>ban_until\<close> and \<open>ban_reason\<close> of the target as they were.
  The code at the token \<open>soon\<close> (code points 115, 111, 111, 110): \<open>parse_time\<close>
  returns \<open>None\<close> at the letter \<open>o\<close>, \<open>adm_ban\<close> reads \<open>None\<close> as the permanent
  ban, and the target, not banned before, ends up banned with no expiry and the default
  reason, and is told so.
\<close>

theorem adm_ban_soon_bans_forever:
  "parse_time [115, 111, 111, 110] = Inr None
   \<and> \<not> is_banned (sample_user 7 (Some 5) 0)
   \<and> (case adm_ban sample_config reliable 1000 (owner_command 5) [[115, 111, 111, 110]]
              (sample_world [sample_user 7 (Some 5) 0]) of
         (r, w) \<Rightarrow>
           r = Inr ()
           \<and> map (\<lambda>u. (is_banned u, ban_until u, ban_reason u)) (users (store w))
               = [(True, None, Some DEFAULT_REASON)]
           \<and> trace w =
               [Answer (BanIssued (anon_id (sample_user 7 (Some 5) 0)) FOREVER DEFAULT_REASON),
                SendMessage 7 None (BanNotifyPermanent DEFAULT_REASON)])"
proof -
  have p: "parse_time [115, 111, 111, 110] = Inr None"
    by (simp add: parse_time_def py_defs)
  show ?thesis
    by (simp add: adm_ban_def p io_defs store_defs sample_defs)
qed

section \<open>The broadcast loop\<close>

lemmas bc_defs = broadcast_loop_def broadcast_iteration_def on_broadcast_error_def
  enumerate_eq_zip

lemma attempted_append: "attempted (es @ fs) = attempted es @ attempted fs"
proof (induction es)
  case Nil
  then show ?case by simp
next
  case (Cons e es)
  then show ?case by (cases e) simp_all
qed

lemma on_broadcast_error_attempted:
  "attempted (trace (fst (on_broadcast_error e u (w, c)))) = attempted (trace w)"
  by (cases e) (simp_all add: on_broadcast_error_def attempted_append)

lemma iteration_attempted:
  "attempted (trace (fst (broadcast_iteration T n (i, u) (w, c)))) = attempted (trace w) @ [u]"
  by (simp add: broadcast_iteration_def io_call_def Let_def on_broadcast_error_attempted
        attempted_append split: sum.splits prod.splits)

lemma fold_attempted:
  "attempted (trace (fst (foldl (\<lambda>s item. broadcast_iteration T n item s) s (enumerate k ids))))
     = attempted (trace (fst s)) @ ids"
proof (induction ids arbitrary: k s)
  case Nil
  then show ?case by simp
next
  case (Cons u ids)
  obtain w c where s: "s = (w, c)" by (cases s)
  show ?case
    by (simp add: Cons.IH s iteration_attempted)
qed

lemma iteration_blocked:
  assumes forb: "\<forall>k. T k (CopyMessageToUser x) = Inl TelegramForbiddenError"
      and ok: "\<forall>k u. u \<noteq> x \<longrightarrow> (\<exists>v. T k (CopyMessageToUser u) = Inr v)"
      and edit: "\<forall>k p. \<exists>v. T k (EditProgress p) = Inr v"
      and run: "broadcast_iteration T n (i, u) (w, c) = (w1, c1)"
  shows "success c1 = success c + (if u = x then 0 else 1)
         \<and> failed c1 = failed c + (if u = x then 1 else 0)
         \<and> store w1 = (if u = x then mark_inactive (store w) x else store w)"
proof (cases "u = x")
  case True
  from forb have "T (length (trace w)) (CopyMessageToUser x) = Inl TelegramForbiddenError"
    by simp
  with run True show ?thesis
    by (auto simp add: broadcast_iteration_def io_call_def on_broadcast_error_def Let_def)
next
  case False
  from ok False obtain v where v: "T (length (trace w)) (CopyMessageToUser u) = Inr v"
    by blast
  from edit obtain v' where
    v': "T (Suc (length (trace w)))
           (EditProgress (Progress (int i) n (success c + 1) (failed c))) = Inr v'"
    by blast
  from run False v v' show ?thesis
    by (auto simp add: broadcast_iteration_def io_call_def Let_def split: if_splits)
qed

lemma mark_inactive_idem: "mark_inactive (mark_inactive d x) x = mark_inactive d x"
  by (simp add: mark_inactive_def update_users_def o_def)

lemma fold_blocked:
  assumes forb: "\<forall>k. T k (CopyMessageToUser x) = Inl TelegramForbiddenError"
      and ok: "\<forall>k u. u \<noteq> x \<longrightarrow> (\<exists>v. T k (CopyMessageToUser u) = Inr v)"
      and edit: "\<forall>k p. \<exists>v. T k (EditProgress p) = Inr v"
  shows "foldl (\<lambda>s item. broadcast_iteration T n item s) (w, c) (enumerate k ids) = (w', c') \<Longrightarrow>
         success c' = success c + int (length (filter (\<lambda>u. u \<noteq> x) ids))
         \<and> failed c' = failed c + int (length (filter (\<lambda>u. u = x) ids))
         \<and> store w' = (if x \<in> set ids then mark_inactive (store w) x else store w)"
proof (induction ids arbitrary: k w c)
  case Nil
  then show ?case by simp
next
  case (Cons u ids)
  obtain w1 c1 where step: "broadcast_iteration T n (k, u) (w, c) = (w1, c1)"
    by (cases "broadcast_iteration T n (k, u) (w, c)")
  from Cons.prems step have rest:
    "foldl (\<lambda>s item. broadcast_iteration T n item s) (w1, c1) (enumerate (Suc k) ids) = (w', c')"
    by simp
  note a = iteration_blocked[OF forb ok edit step]
  note b = Cons.IH[OF rest]
  from a b show ?case
    by (auto simp add: mark_inactive_idem)
qed

lemma distinct_filter_counts:
  assumes "distinct ids" and "x \<in> set ids"
  shows "length (filter (\<lambda>u. u = x) ids) = 1"
    and "int (length (filter (\<lambda>u. u \<noteq> x) ids)) = int (length ids) - 1"
proof -
  from assms show one: "length (filter (\<lambda>u. u = x) ids) = 1"
    by (induction ids) (auto simp add: filter_empty_conv)
  have "length ids = length (filter (\<lambda>u. u = x) ids) + length (filter (\<lambda>u. u \<noteq> x) ids)"
    using sum_length_filter_compl[of "\<lambda>u. u = x" ids] by simp
  with one show "int (length (filter (\<lambda>u. u \<noteq> x) ids)) = int (length ids) - 1"
    by simp
qed

lemma rows_other:
  assumes "\<And>r. user_id (f r) = user_id r"
  shows "filter (\<lambda>r. user_id r \<noteq> x) (map (\<lambda>r. if user_id r = x then f r else r) rows)
           = filter (\<lambda>r. user_id r \<noteq> x) rows"
  by (induction rows) (simp_all add: assms)

lemma rows_same:
  assumes "\<And>r. user_id (f r) = user_id r"
  shows "filter (\<lambda>r. user_id r = x) (map (\<lambda>r. if user_id r = x then f r else r) rows)
           = map f (filter (\<lambda>r. user_id r = x) rows)"
  by (induction rows) (simp_all add: assms)

lemma mark_inactive_rows:
  "list_all (\<lambda>r. \<not> is_active r) (filter (\<lambda>r. user_id r = x) (users (mark_inactive d x)))"
  "filter (\<lambda>r. user_id r \<noteq> x) (users (mark_inactive d x)) = filter (\<lambda>r. user_id r \<noteq> x) (users d)"
  by (simp_all add: mark_inactive_def update_users_def rows_other rows_same list_all_iff)


text \<open>
  C6. In a broadcast run every recipient of the snapshot is attempted once, in order,
  whatever the transport answers: no error of one recipient ends the run. When exactly user
  \<open>x\<close> of a snapshot without repetitions has blocked the bot (\<open>TelegramForbiddenError\<close>)
  and every other delivery and every progress edit succeeds, the run ends with
  \<open>success\<close> one less than the size of the snapshot and \<open>failed = 1\<close>, every row of
  \<open>x\<close> has \<open>is_active\<close> false, and the rows of the other users are untouched.
\<close>

theorem broadcast_forbidden_counted_run_continues:
  assumes run: "broadcast_loop T n ids (w, \<lparr>success = 0, failed = 0, index = 0\<rparr>) = (w', c')"
  shows "attempted (trace w') = attempted (trace w) @ ids
         \<and> (only_blocks T x \<and> distinct ids \<and> x \<in> set ids
             \<longrightarrow> success c' = int (length ids) - 1
                 \<and> failed c' = 1
                 \<and> list_all (\<lambda>r. \<not> is_active r)
                      (filter (\<lambda>r. user_id r = x) (users (store w')))
                 \<and> filter (\<lambda>r. user_id r \<noteq> x) (users (store w'))
                     = filter (\<lambda>r. user_id r \<noteq> x) (users (store w)))"
proof (intro conjI impI)
  show "attempted (trace w') = attempted (trace w) @ ids"
    using fold_attempted[of T n "(w, \<lparr>success = 0, failed = 0, index = 0\<rparr>)" 1 ids] run
    by (simp add: broadcast_loop_def)
next
  assume h: "only_blocks T x \<and> distinct ids \<and> x \<in> set ids"
  from run have f: "foldl (\<lambda>s item. broadcast_iteration T n item s)
                      (w, \<lparr>success = 0, failed = 0, index = 0\<rparr>) (enumerate 1 ids) = (w', c')"
    by (simp add: broadcast_loop_def)
  from h have forb: "\<forall>k. T k (CopyMessageToUser x) = Inl TelegramForbiddenError"
    and ok: "\<forall>k u. u \<noteq> x \<longrightarrow> (\<exists>v. T k (CopyMessageToUser u) = Inr v)"
    and edit: "\<forall>k p. \<exists>v. T k (EditProgress p) = Inr v"
    and d: "distinct ids" and m: "x \<in> set ids"
    unfolding only_blocks_def by blast+
  note r = fold_blocked[OF forb ok edit f]
  note cnt = distinct_filter_counts[OF d m]
  from r cnt show "success c' = int (length ids) - 1" by simp
  from r cnt show "failed c' = 1" by simp
  from r m have st: "store w' = mark_inactive (store w) x" by simp
  show "list_all (\<lambda>r. \<not> is_active r) (filter (\<lambda>r. user_id r = x) (users (store w')))"
    by (simp only: st mark_inactive_rows)
  show "filter (\<lambda>r. user_id r \<noteq> x) (users (store w'))
          = filter (\<lambda>r. user_id r \<noteq> x) (users (store w))"
    by (simp only: st mark_inactive_rows)
qed


text \<open>
  The instance of the claim: a snapshot of the hundred users 1 to 100 in which user 42 has
  blocked the bot gives \<open>success = 99\<close>, \<open>failed = 1\<close> and user 42 inactive.
\<close>

theorem broadcast_forbidden_counted_run_continues_witness:
  "length hundred_users = 100
   \<and> only_blocks (blocked_by 42) 42
   \<and> distinct hundred_users \<and> 42 \<in> set hundred_users
   \<and> (case broadcast_loop (blocked_by 42) 100 hundred_users
              (sample_world (map (\<lambda>i. sample_user i None 0) hundred_users),
               \<lparr>success = 0, failed = 0, index = 0\<rparr>) of
         (w', c') \<Rightarrow>
           attempted (trace w') = hundred_users
           \<and> success c' = 99 \<and> failed c' = 1
           \<and> list_all (\<lambda>r. \<not> is_active r) (filter (\<lambda>r. user_id r = 42) (users (store w'))))"
proof -
  obtain w' c' where run:
    "broadcast_loop (blocked_by 42) 100 hundred_users
       (sample_world (map (\<lambda>i. sample_user i None 0) hundred_users),
        \<lparr>success = 0, failed = 0, index = 0\<rparr>) = (w', c')"
    by (cases "broadcast_loop (blocked_by 42) 100 hundred_users
       (sample_world (map (\<lambda>i. sample_user i None 0) hundred_users),
        \<lparr>success = 0, failed = 0, index = 0\<rparr>)")
  have len: "length hundred_users = 100" by (simp add: hundred_users_def)
  have d: "distinct hundred_users" by (simp add: hundred_users_def distinct_map inj_on_def)
  have m: "42 \<in> set hundred_users"
    by (simp add: hundred_users_def image_iff)
  have t: "only_blocks (blocked_by 42) 42"
    by (simp add: only_blocks_def blocked_by_def)
  from broadcast_forbidden_counted_run_continues[OF run, of 42] t d m len run
  show ?thesis
    by (simp add: sample_world_def)
qed


text \<open>
  C3. The claim: when a delivery fails with a rate limit carrying a retry-after duration,
  the run sleeps that long, retries the same recipient, and counts that recipient once, as
  a success. The code on a snapshot of ten users where the seventh call (the delivery to
  user 7) is answered with \<open>TelegramRetryAfter 2\<close> and any other call, a retry included,
  would succeed: the run sleeps 2000 ms and goes on to user 8. User 7 is attempted once and
  never again, the decrement of the local \<open>index\<close> is overwritten by \<open>enumerate\<close>, and
  the run ends with \<open>success = 9\<close> and \<open>failed = 0\<close>: user 7 is counted in neither.
\<close>

theorem broadcast_rate_limited_recipient_skipped:
  "(case broadcast_loop (limited_once 6 2) 10 ten_users
           (sample_world (map (\<lambda>i. sample_user i None 0) ten_users),
            \<lparr>success = 0, failed = 0, index = 0\<rparr>) of
      (w, c) \<Rightarrow>
        trace w =
          [CopyMessageToUser 1, CopyMessageToUser 2, CopyMessageToUser 3, CopyMessageToUser 4,
           CopyMessageToUser 5, CopyMessageToUser 6, CopyMessageToUser 7, Sleep 2000,
           CopyMessageToUser 8, CopyMessageToUser 9, CopyMessageToUser 10,
           EditProgress (Progress 10 10 9 0), Sleep 50]
        \<and> success c = 9 \<and> failed c = 0)"
  by (simp add: bc_defs io_defs ten_users_def limited_once_def sample_defs upt_rec)

text \<open>
  C9. The claim: a failed edit of the progress message is ignored and changes neither
  counter for the recipient being processed. The code on a snapshot of ten users where
  every delivery succeeds and the edit after the tenth is refused with
  \<open>TelegramBadRequest\<close>: the edit sits inside the \<open>try\<close> block of the delivery, after
  \<open>success += 1\<close>, so the general \<open>except\<close> clause adds one to \<open>failed\<close>. User 10
  received the message once and is counted both as a success and as a failure:
  \<open>success = 10\<close> and \<open>failed = 1\<close> for ten recipients. The run itself goes on.
\<close>

theorem broadcast_progress_failure_counted_failed:
  "(case broadcast_loop progress_rejected 10 ten_users
           (sample_world (map (\<lambda>i. sample_user i None 0) ten_users),
            \<lparr>success = 0, failed = 0, index = 0\<rparr>) of
      (w, c) \<Rightarrow>
        attempted (trace w) = ten_users
        \<and> filter (\<lambda>e. e = CopyMessageToUser 10) (trace w) = [CopyMessageToUser 10]
        \<and> success c = 10 \<and> failed c = 1)"
  by (simp add: bc_defs io_defs ten_users_def progress_rejected_def sample_defs upt_rec)

section \<open>The guard\<close>

lemma find_rows_updated:
  assumes "\<And>r. user_id (f r) = user_id r"
  shows "find (\<lambda>r. user_id r = uid) (map (\<lambda>r. if user_id r = uid then f r else r) rows)
           = map_option f (find (\<lambda>r. user_id r = uid) rows)"
  by (induction rows) (simp_all add: assms)















section \<open>Digits without a unit\<close>












lemma io_call_store: "store (snd (io_call T e w)) = store w"
  by (simp add: io_call_def)











section \<open>Dispatch of messages and callback queries\<close>

text \<open>
  C2. The claim: for every action of a user, message or callback, the guard runs before any
  handler, so no handler body runs for a banned user whose ban has not expired. The code on
  user 7, banned for good: the user's private message is turned away by the guard with the
  permanent notice, but the user's callback query \<open>cat_X\<close> reaches
  \<open>process_cat_callback\<close>, whose whole body runs: a forum topic is created, thread 77 is
  stored as the user's open ticket, the ticket card is posted to the staff group and the
  user is put in the state \<open>writing_issue\<close>, all while \<open>is_banned\<close> stays set.
\<close>

theorem callback_of_banned_user_reaches_handler:
  "is_banned (banned_user 7 None) \<and> ban_until (banned_user 7 None) = None
   \<and> (case dispatch (topic_server 77) [] 1000 1000 1000 (\<lambda>m. io_return ())
              (process_cat_callback sample_config (topic_server 77))
              (MessageUpdate (private_message 7)) (sample_world [banned_user 7 None]) of
         (r, w) \<Rightarrow> r = Inr None \<and> trace w = [Answer BanForever])
   \<and> (case dispatch (topic_server 77) [] 1000 1000 1000 (\<lambda>m. io_return ())
              (process_cat_callback sample_config (topic_server 77))
              (CallbackQueryUpdate (category_pressed 7)) (sample_world [banned_user 7 None]) of
         (r, w) \<Rightarrow>
           r = Inr (Some ())
           \<and> map (\<lambda>r. (is_banned r, ban_until r, topic_id r)) (users (store w))
               = [(True, None, Some 77)]
           \<and> fsm w 7 = Some writing_issue
           \<and> trace w =
               [SendChatAction 7, Sleep 1000,
                CreateForumTopic (- 100) (topic_name [88] (anon_id (banned_user 7 None))),
                SendMessage (- 100) (Some 77)
                  (TicketCard [88] (anon_id (banned_user 7 None)) 7 0 0),
                EditText (CategoryChosen [88]),
                SendChatAction 7, Sleep 2000, SendMessage 7 None AwaitingMessage,
                AnswerCallback])"
  by (simp add: dispatch_def GuardMiddleware_def process_cat_callback_def init_ticket_def
        send_with_typing_def io_defs store_defs sample_defs banned_user_def private_message_def
        category_pressed_def topic_server_def Let_def)


section \<open>Opening a ticket over an open one\<close>

lemma map_filter_set: "set (List.map_filter f xs) = {t. \<exists>r \<in> set xs. f r = Some t}"
  by (induction xs) (auto simp add: map_filter_simps split: option.splits)















section \<open>Uniqueness of thread ids\<close>

lemma thread_ids_update_same:
  assumes "\<And>r. topic_id (f r) = topic_id r"
  shows "thread_ids (update_users uid f d) = thread_ids d"
proof -
  have "List.map_filter topic_id (map (\<lambda>r. if user_id r = uid then f r else r) xs)
          = List.map_filter topic_id xs" for xs
    by (induction xs) (auto simp add: map_filter_simps assms split: option.splits)
  then show ?thesis
    by (simp add: thread_ids_def update_users_def)
qed

lemma user_ids_update:
  assumes "\<And>r. user_id (f r) = user_id r"
  shows "map user_id (users (update_users uid f d)) = map user_id (users d)"
  by (simp add: update_users_def o_def assms)

lemma store_ok_update:
  assumes "\<And>r. user_id (f r) = user_id r" and "\<And>r. topic_id (f r) = topic_id r"
      and "store_ok d"
  shows "store_ok (update_users uid f d)"
  using assms(3)
  by (simp add: store_ok_def thread_ids_update_same[of f, OF assms(2)]
        user_ids_update[of f, OF assms(1)])

lemma map_filter_insort_none:
  "f x = None \<Longrightarrow> List.map_filter f (insort_key k x xs) = List.map_filter f xs"
  by (induction xs) (auto simp add: map_filter_simps split: option.splits)

lemma store_ok_register:
  assumes "store_ok d" and "register d uid rid suffix now = Inr d'"
  shows "store_ok d'"
proof (cases "list_ex (\<lambda>r. user_id r = uid) (users d)")
  case True
  with assms(2) have "d' = update_users uid (\<lambda>r. r\<lparr>last_seen := now\<rparr>) d"
    by (simp add: register_def)
  with assms(1) show ?thesis
    by (simp add: store_ok_update)
next
  case False
  then have new: "uid \<notin> user_id ` set (users d)"
    by (auto simp add: list_ex_iff)
  from False assms(2) obtain row where
    row: "users d' = insort_key user_id row (users d)" "user_id row = uid" "topic_id row = None"
    by (auto simp add: register_def Let_def split: if_splits)
  have "distinct (map user_id (users d'))"
    using assms(1) new row(1,2)
    by (simp add: store_ok_def distinct_map set_insort_key distinct_insort inj_on_def) blast
  moreover have "thread_ids d' = thread_ids d"
    by (simp add: thread_ids_def row(1) map_filter_insort_none[where f = topic_id, OF row(3)])
  ultimately show ?thesis
    using assms(1) by (simp add: store_ok_def)
qed

lemma close_rows_distinct:
  "distinct (List.map_filter topic_id xs) \<Longrightarrow>
     distinct (List.map_filter topic_id
                (map (\<lambda>r. if user_id r = uid then r\<lparr>topic_id := None\<rparr> else r) xs))"
proof (induction xs)
  case Nil
  then show ?case by simp
next
  case (Cons a xs)
  have sub: "set (List.map_filter topic_id
                (map (\<lambda>r. if user_id r = uid then r\<lparr>topic_id := None\<rparr> else r) xs))
               \<subseteq> set (List.map_filter topic_id xs)"
    by (auto simp add: map_filter_set split: if_splits)
  from Cons sub show ?case
    by (cases "topic_id a") (auto simp add: map_filter_simps)
qed

lemma store_ok_close: "store_ok d \<Longrightarrow> store_ok (close_ticket d uid)"
  by (simp add: store_ok_def close_ticket_def user_ids_update)
     (simp add: thread_ids_def update_users_def close_rows_distinct)

lemma map_other_rows:
  "uid \<notin> user_id ` set xs \<Longrightarrow> map (\<lambda>r. if user_id r = uid then f r else r) xs = xs"
  by (induction xs) auto

lemma set_topic_rows_distinct:
  assumes "distinct (map user_id xs)" and "distinct (List.map_filter topic_id xs)"
      and "\<forall>r\<in>set xs. user_id r \<noteq> uid \<longrightarrow> topic_id r \<noteq> Some tid"
  shows "distinct (List.map_filter topic_id
           (map (\<lambda>r. if user_id r = uid then r\<lparr>topic_id := Some tid\<rparr> else r) xs))"
  using assms
proof (induction xs)
  case Nil
  then show ?case by simp
next
  case (Cons a xs)
  show ?case
  proof (cases "user_id a = uid")
    case True
    with Cons.prems(1) have absent: "uid \<notin> user_id ` set xs" by auto
    then have other: "\<forall>r\<in>set xs. user_id r \<noteq> uid" by auto
    with Cons.prems(3) have "tid \<notin> set (List.map_filter topic_id xs)"
      by (auto simp add: map_filter_set)
    moreover from Cons.prems(2) have "distinct (List.map_filter topic_id xs)"
      by (cases "topic_id a") (simp_all add: map_filter_simps)
    ultimately show ?thesis
      using True by (simp add: map_filter_simps map_other_rows[OF absent])
  next
    case False
    from Cons.prems have ih: "distinct (List.map_filter topic_id
           (map (\<lambda>r. if user_id r = uid then r\<lparr>topic_id := Some tid\<rparr> else r) xs))"
      by (intro Cons.IH) (auto simp add: map_filter_simps split: option.splits)
    have sub: "set (List.map_filter topic_id
           (map (\<lambda>r. if user_id r = uid then r\<lparr>topic_id := Some tid\<rparr> else r) xs))
            \<subseteq> insert tid (set (List.map_filter topic_id xs))"
      by (auto simp add: map_filter_set split: if_splits)
    show ?thesis
    proof (cases "topic_id a")
      case None
      with False ih show ?thesis by (simp add: map_filter_simps)
    next
      case (Some t)
      with False Cons.prems(3) have "t \<noteq> tid" by auto
      moreover from Some Cons.prems(2) have "t \<notin> set (List.map_filter topic_id xs)"
        by (simp add: map_filter_simps)
      ultimately have "t \<notin> set (List.map_filter topic_id
           (map (\<lambda>r. if user_id r = uid then r\<lparr>topic_id := Some tid\<rparr> else r) xs))"
        using sub by blast
      with False Some ih show ?thesis by (simp add: map_filter_simps)
    qed
  qed
qed

lemma store_ok_set_topic:
  assumes ok: "store_ok d" and run: "set_topic d tid uid = Inr d'"
  shows "store_ok d'"
proof -
  from run have d': "d' = update_users uid (\<lambda>r. r\<lparr>topic_id := Some tid\<rparr>) d"
    and cond: "\<not> (list_ex (\<lambda>r. user_id r = uid) (users d)
                  \<and> list_ex (\<lambda>r. user_id r \<noteq> uid \<and> topic_id r = Some tid) (users d))"
    by (auto simp add: set_topic_def split: if_splits)
  have pk: "distinct (map user_id (users d'))"
    using ok by (simp add: d' store_ok_def user_ids_update)
  show ?thesis
  proof (cases "list_ex (\<lambda>r. user_id r = uid) (users d)")
    case False
    then have "uid \<notin> user_id ` set (users d)" by (auto simp add: list_ex_iff)
    then have "users d' = users d"
      by (simp add: d' update_users_def map_other_rows)
    with ok show ?thesis by (simp add: store_ok_def thread_ids_def)
  next
    case True
    with cond have "\<forall>r\<in>set (users d). user_id r \<noteq> uid \<longrightarrow> topic_id r \<noteq> Some tid"
      by (auto simp add: list_ex_iff)
    with ok have "distinct (thread_ids d')"
      unfolding d' thread_ids_def update_users_def store_ok_def
      by (simp add: set_topic_rows_distinct)
    with pk show ?thesis by (simp add: store_ok_def)
  qed
qed

lemma store_ok_add_warn:
  assumes "store_ok d" and "add_warn d uid admin_id reason now = Inr (d', n)"
  shows "store_ok d'"
proof -
  from assms(2) have "users d' = users (update_users uid (\<lambda>r. r\<lparr>warns := warns r + 1\<rparr>) d)"
    by (auto simp add: add_warn_def Let_def split: option.splits)
  moreover have "store_ok (update_users uid (\<lambda>r. r\<lparr>warns := warns r + 1\<rparr>) d)"
    using assms(1) by (simp add: store_ok_update)
  ultimately show ?thesis by (simp add: store_ok_def thread_ids_def)
qed

lemma reachable_store_ok: "reachable d \<Longrightarrow> store_ok d"
proof (induction rule: reachable.induct)
  case reach_init
  then show ?case by (simp add: store_ok_def empty_db_def thread_ids_def map_filter_simps)
next
  case (reach_register d uid rid suffix now d')
  then show ?case by (auto intro: store_ok_register)
next
  case (reach_warn d uid admin_id reason now d' n)
  then show ?case by (auto intro: store_ok_add_warn)
next
  case (reach_close d uid)
  then show ?case by (simp add: store_ok_close)
next
  case (reach_count d uid now)
  then show ?case by (simp add: increment_message_count_def store_ok_update)
next
  case (reach_ban d uid banned until reason)
  then show ?case by (simp add: update_user_ban_def store_ok_update)
next
  case (reach_topic d tid uid d')
  then show ?case by (auto intro: store_ok_set_topic)
next
  case (reach_inactive d uid)
  then show ?case by (simp add: mark_inactive_def store_ok_update)
next
  case (reach_stats d admin_id message_type content n_sent n_failed)
  then show ?case by (simp add: save_broadcast_stats_def store_ok_def thread_ids_def)
qed


lemma one_row_per_thread:
  "distinct (List.map_filter f xs) \<Longrightarrow> length (filter (\<lambda>x. f x = Some t) xs) \<le> 1"
proof (induction xs)
  case Nil
  then show ?case by simp
next
  case (Cons a xs)
  show ?case
  proof (cases "f a = Some t")
    case True
    with Cons.prems have "t \<notin> set (List.map_filter f xs)"
      by (simp add: map_filter_simps)
    then have "filter (\<lambda>x. f x = Some t) xs = []"
      by (auto simp add: map_filter_set filter_empty_conv)
    with True show ?thesis by simp
  next
    case False
    with Cons show ?thesis
      by (cases "f a") (simp_all add: map_filter_simps)
  qed
qed

lemma close_keeps_other_threads:
  "find (\<lambda>r. topic_id r = Some t) xs = Some r \<Longrightarrow> user_id r \<noteq> uid \<Longrightarrow>
     find (\<lambda>r. topic_id r = Some t)
       (map (\<lambda>r. if user_id r = uid then r\<lparr>topic_id := None\<rparr> else r) xs) = Some r"
  by (induction xs) (auto split: if_splits)


text \<open>
  C5. In every store reachable from the empty one through the writes of the program, the
  thread ids held by the rows are pairwise distinct, so at most one row of \<open>users\<close> holds a
  given thread id \<open>t\<close>. Closing the ticket of user \<open>uid\<close> leads to a reachable store with
  the same property, leaves the rows of all other users as they were, and a thread that
  resolved to another user still resolves to that user.
\<close>

theorem thread_id_unique_and_close_is_local:
  assumes "reachable d"
  shows "distinct (thread_ids d)
         \<and> length (filter (\<lambda>r. topic_id r = Some t) (users d)) \<le> 1
         \<and> reachable (close_ticket d uid)
         \<and> distinct (thread_ids (close_ticket d uid))
         \<and> filter (\<lambda>r. user_id r \<noteq> uid) (users (close_ticket d uid))
             = filter (\<lambda>r. user_id r \<noteq> uid) (users d)
         \<and> (get_user d None (Some t) = Some r \<and> user_id r \<noteq> uid
              \<longrightarrow> get_user (close_ticket d uid) None (Some t) = Some r)"
proof -
  from assms have ok: "store_ok d" by (rule reachable_store_ok)
  then have u: "distinct (thread_ids d)" by (simp add: store_ok_def)
  from assms have rc: "reachable (close_ticket d uid)" by (rule reach_close)
  then have "store_ok (close_ticket d uid)" by (rule reachable_store_ok)
  then have uc: "distinct (thread_ids (close_ticket d uid))" by (simp add: store_ok_def)
  have one: "length (filter (\<lambda>r. topic_id r = Some t) (users d)) \<le> 1"
    using u unfolding thread_ids_def by (rule one_row_per_thread)
  have others: "filter (\<lambda>r. user_id r \<noteq> uid) (users (close_ticket d uid))
                  = filter (\<lambda>r. user_id r \<noteq> uid) (users d)"
    by (simp add: close_ticket_def update_users_def rows_other)
  have look: "get_user (close_ticket d uid) None (Some t) = Some r"
    if "get_user d None (Some t) = Some r \<and> user_id r \<noteq> uid"
    using that
    by (auto simp add: get_user_def truthy_def close_ticket_def update_users_def
          close_keeps_other_threads split: if_splits)
  from u one rc uc others look show ?thesis by blast
qed


text \<open>
  The store of users 7 and 8 with threads 5 and 6 is reached by two registrations and two
  topic updates; closing the ticket of user 7 leaves thread 6 with user 8.
\<close>

theorem thread_id_unique_and_close_is_local_witness:
  "reachable two_tickets
   \<and> thread_ids two_tickets = [5, 6]
   \<and> map (\<lambda>r. (user_id r, topic_id r)) (users (close_ticket two_tickets 7))
       = [(7, None), (8, Some 6)]
   \<and> get_user two_tickets None (Some 6) = Some (sample_user 8 (Some 6) 0)
   \<and> get_user (close_ticket two_tickets 7) None (Some 6) = Some (sample_user 8 (Some 6) 0)
   \<and> distinct (thread_ids (close_ticket two_tickets 7))"
proof -
  let ?d1 = "store (sample_world [sample_user 7 None 0])"
  let ?d2 = "store (sample_world [sample_user 7 None 0, sample_user 8 None 0])"
  let ?d3 = "store (sample_world [sample_user 7 (Some 5) 0, sample_user 8 None 0])"
  have e1: "register empty_db 7 None [55] 0 = Inr ?d1"
    by (simp add: register_def empty_db_def sample_defs Let_def)
  have e2: "register ?d1 8 None [56] 0 = Inr ?d2"
    by (simp add: register_def sample_defs Let_def USER_PREFIX_def)
  have e3: "set_topic ?d2 5 7 = Inr ?d3"
    by (simp add: set_topic_def update_users_def sample_defs)
  have e4: "set_topic ?d3 6 8 = Inr two_tickets"
    by (simp add: set_topic_def update_users_def sample_defs two_tickets_def)
  note r1 = reach_register[OF reach_init e1]
  note r2 = reach_register[OF r1 e2]
  note r3 = reach_topic[OF r2 e3]
  note r4 = reach_topic[OF r3 e4]
  have f: "get_user two_tickets None (Some 6) = Some (sample_user 8 (Some 6) 0)"
    by (simp add: two_tickets_def get_user_def truthy_def sample_defs)
  have n: "user_id (sample_user 8 (Some 6) 0) \<noteq> 7"
    by (simp add: sample_user_def)
  note t = thread_id_unique_and_close_is_local[OF r4, of 6 7 "sample_user 8 (Some 6) 0"]
  have ids: "thread_ids two_tickets = [5, 6]"
    by (simp add: two_tickets_def thread_ids_def map_filter_simps sample_defs)
  have rows: "map (\<lambda>r. (user_id r, topic_id r)) (users (close_ticket two_tickets 7))
                = [(7, None), (8, Some 6)]"
    by (simp add: two_tickets_def close_ticket_def update_users_def sample_defs)
  from t f n r4 ids rows show ?thesis by blast
qed

section \<open>Warnings and the automatic ban\<close>

lemma find_by_key:
  "distinct (map user_id xs) \<Longrightarrow> u \<in> set xs \<Longrightarrow> find (\<lambda>r. user_id r = user_id u) xs = Some u"
  by (induction xs) (auto simp add: rev_image_eqI)

lemma find_thread_updated:
  assumes "\<And>r. topic_id (f r) = topic_id r"
  shows "find (\<lambda>r. topic_id r = tid) (map (\<lambda>r. if user_id r = uid then f r else r) rows)
           = map_option (\<lambda>r. if user_id r = uid then f r else r)
               (find (\<lambda>r. topic_id r = tid) rows)"
  by (induction rows) (simp_all add: assms)

lemma get_user_by_thread:
  "get_user d None tid = Some u \<longleftrightarrow> truthy tid \<and> find (\<lambda>r. topic_id r = tid) (users d) = Some u"
  by (auto simp add: get_user_def truthy_def)

lemma thread_lookup_updated:
  assumes f: "\<And>r. topic_id (f r) = topic_id r"
      and found: "get_user d None tid = Some u"
  shows "get_user (update_users (user_id u) f d) None tid = Some (f u)"
  using found
  by (simp add: get_user_by_thread update_users_def find_thread_updated[of f, OF f])

lemma add_warn_found:
  assumes found: "get_user d None tid = Some u"
      and pk: "distinct (map user_id (users d))"
  shows "add_warn d (user_id u) admin_id reason now =
           Inr ((update_users (user_id u) (\<lambda>r. r\<lparr>warns := warns r + 1\<rparr>) d)
                  \<lparr>warns_history := warns_history d @
                     [\<lparr>warn_user_id = user_id u, warn_admin_id = admin_id, warn_reason = reason,
                       warn_created_at = now\<rparr>]\<rparr>,
                warns u + 1)"
proof -
  from found have "u \<in> set (users d)"
    by (auto simp add: get_user_by_thread find_Some_iff)
  with pk have "find (\<lambda>r. user_id r = user_id u) (users d) = Some u"
    by (rule find_by_key)
  then have "find (\<lambda>r. user_id r = user_id u)
               (users (update_users (user_id u) (\<lambda>r. r\<lparr>warns := warns r + 1\<rparr>) d))
             = Some (u\<lparr>warns := warns u + 1\<rparr>)"
    by (simp add: update_users_def find_rows_updated)
  then show ?thesis
    by (simp add: add_warn_def Let_def) (simp add: update_users_def)
qed


lemma io_call_delivered:
  assumes "\<forall>k e. \<exists>v. T k e = Inr v"
  shows "io_call T e w = (Inr (projr (T (length (trace w)) e)), w\<lparr>trace := trace w @ [e]\<rparr>)"
proof -
  from assms obtain v where "T (length (trace w)) e = Inr v" by blast
  then show ?thesis by (simp add: io_call_def)
qed

lemma adm_warn_step:
  assumes owner: "from_user m = Some (OWNER_ID cfg)"
      and found: "get_user (store w) None (message_thread_id m) = Some u"
      and pk: "distinct (map user_id (users (store w)))"
      and delivered: "\<forall>k e. \<exists>v. T k e = Inr v"
  shows "adm_warn cfg T now m (ts # reason # rest) w =
           (Inr (),
            w\<lparr>store :=
                 (let d1 = (update_users (user_id u) (\<lambda>r. r\<lparr>warns := warns r + 1\<rparr>) (store w))
                             \<lparr>warns_history := warns_history (store w) @
                                [\<lparr>warn_user_id = user_id u, warn_admin_id = OWNER_ID cfg,
                                  warn_reason = reason, warn_created_at = now\<rparr>]\<rparr>
                  in if 3 \<le> warns u + 1
                     then update_user_ban d1 (user_id u) True None (Some AUTO_BAN_REASON)
                     else d1),
              trace := trace w @ warn_notices u reason\<rparr>)"
  by (simp add: adm_warn_def owner found add_warn_found[OF found pk] io_bind_def io_read_def
        io_query_def io_write_def io_return_def io_call_delivered[OF delivered] Let_def
        warn_notices_def)

lemma get_user_history: "get_user (d\<lparr>warns_history := h\<rparr>) a b = get_user d a b"
  by (simp add: get_user_def)

lemma adm_warn_step_row:
  assumes owner: "from_user m = Some (OWNER_ID cfg)"
      and found: "get_user (store w) None (message_thread_id m) = Some u"
      and pk: "distinct (map user_id (users (store w)))"
      and delivered: "\<forall>k e. \<exists>v. T k e = Inr v"
  shows "get_user (store (snd (adm_warn cfg T now m (ts # reason # rest) w))) None
           (message_thread_id m) = Some (after_warn u)"
    and "distinct (map user_id (users (store (snd (adm_warn cfg T now m (ts # reason # rest) w)))))"
proof -
  let ?d0 = "update_users (user_id u) (\<lambda>r. r\<lparr>warns := warns r + 1\<rparr>) (store w)"
  let ?d1 = "?d0\<lparr>warns_history := warns_history (store w) @
                [\<lparr>warn_user_id = user_id u, warn_admin_id = OWNER_ID cfg,
                  warn_reason = reason, warn_created_at = now\<rparr>]\<rparr>"
  have a0: "get_user ?d0 None (message_thread_id m) = Some (u\<lparr>warns := warns u + 1\<rparr>)"
    by (rule thread_lookup_updated[OF _ found]) simp
  then have a: "get_user ?d1 None (message_thread_id m) = Some (u\<lparr>warns := warns u + 1\<rparr>)"
    by (simp only: get_user_history)
  have b: "get_user (update_user_ban ?d1 (user_id u) True None (Some AUTO_BAN_REASON)) None
             (message_thread_id m)
           = Some (u\<lparr>warns := warns u + 1, is_banned := True, ban_until := None,
                     ban_reason := Some AUTO_BAN_REASON\<rparr>)"
    unfolding update_user_ban_def
    using thread_lookup_updated[of "\<lambda>r. r\<lparr>is_banned := True, ban_until := None,
            ban_reason := Some AUTO_BAN_REASON\<rparr>" ?d1 "message_thread_id m"
            "u\<lparr>warns := warns u + 1\<rparr>"] a
    by simp
  show "get_user (store (snd (adm_warn cfg T now m (ts # reason # rest) w))) None
           (message_thread_id m) = Some (after_warn u)"
    using a b
    by (simp add: adm_warn_step[OF owner found pk delivered] after_warn_def Let_def)
  show "distinct (map user_id (users (store (snd (adm_warn cfg T now m (ts # reason # rest) w)))))"
  proof -
    have k1: "map user_id (users ?d1) = map user_id (users (store w))"
      by (simp add: user_ids_update)
    have k2: "map user_id (users (update_user_ban ?d1 (user_id u) True None (Some AUTO_BAN_REASON)))
                = map user_id (users ?d1)"
      unfolding update_user_ban_def by (rule user_ids_update) simp
    from pk k1 k2 show ?thesis
      by (simp add: adm_warn_step[OF owner found pk delivered] Let_def)
  qed
qed

lemma after_warn_iter:
  "warns ((after_warn ^^ n) u) = warns u + int n"
  "user_id ((after_warn ^^ n) u) = user_id u"
  by (induction n) (simp_all add: after_warn_def)

lemma after_warn_banned:
  "0 < n \<Longrightarrow> 3 \<le> warns u + int n \<Longrightarrow>
     is_banned ((after_warn ^^ n) u) \<and> ban_until ((after_warn ^^ n) u) = None
     \<and> ban_reason ((after_warn ^^ n) u) = Some AUTO_BAN_REASON"
  by (cases n) (simp_all add: after_warn_def after_warn_iter)

lemma after_warn_below:
  "warns u + int n < 3 \<Longrightarrow>
     is_banned ((after_warn ^^ n) u) = is_banned u \<and> ban_until ((after_warn ^^ n) u) = ban_until u
     \<and> ban_reason ((after_warn ^^ n) u) = ban_reason u"
  by (induction n) (simp_all add: after_warn_def after_warn_iter)

lemma warn_run_row:
  assumes owner: "from_user m = Some (OWNER_ID cfg)"
      and delivered: "\<forall>k e. \<exists>v. T k e = Inr v"
  shows "get_user (store w) None (message_thread_id m) = Some u \<Longrightarrow>
         distinct (map user_id (users (store w))) \<Longrightarrow>
         list_all (\<lambda>c. 2 \<le> length (snd c)) calls \<Longrightarrow>
         get_user (store (warn_run cfg T m calls w)) None (message_thread_id m)
           = Some ((after_warn ^^ length calls) u)"
proof (induction calls arbitrary: w u)
  case Nil
  then show ?case by (simp add: warn_run_def)
next
  case (Cons c calls)
  from Cons.prems(3) obtain ts reason rest where parts: "snd c = ts # reason # rest"
    by (cases "snd c"; cases "tl (snd c)") auto
  note step = adm_warn_step_row[OF owner Cons.prems(1,2) delivered, of "fst c" ts reason rest]
  from Cons.prems(3) have rest_ok: "list_all (\<lambda>c. 2 \<le> length (snd c)) calls" by simp
  have "get_user (store (warn_run cfg T m calls (snd (adm_warn cfg T (fst c) m (snd c) w)))) None
          (message_thread_id m) = Some ((after_warn ^^ length calls) (after_warn u))"
    unfolding parts by (rule Cons.IH[OF step rest_ok])
  then show ?case
    by (simp add: warn_run_def funpow_swap1)
qed



text \<open>
  The ban of the third warn is not final: user 7 is warned three times with every notice
  delivered, which bans the user, and the owner then issues \<open>/unban\<close> in the thread.
  \<open>adm_unban\<close> clears the ban fields and leaves the count.
\<close>

lemma warned_thrice_then_unbanned:
  "(case adm_unban sample_config reliable (owner_command 5)
          (warn_run sample_config reliable (owner_command 5)
             [(10, spam_warning), (20, spam_warning), (30, spam_warning)]
             (sample_world [sample_user 7 (Some 5) 0])) of
      (r, w) \<Rightarrow>
        r = Inr ()
        \<and> map (\<lambda>r. (warns r, is_banned r, ban_until r)) (users (store w)) = [(3, False, None)])"
  by (simp add: warn_run_def adm_warn_def adm_unban_def spam_warning_def io_defs store_defs
        sample_defs Let_def)


text \<open>
  The warn command when every notice is delivered. The owner issues warn commands in the
  thread of user \<open>u\<close>, in a store with distinct user ids. After the calls the row of
  \<open>u\<close> has its warn count raised by the number of calls; if that count is 3 or more (and
  there was a call) the row has \<open>is_banned\<close> true, no \<open>ban_until\<close> and the fixed reason;
  if it is below 3 the ban fields are as before. A call that brings the count to 3 or more
  sends both ban notices after the two warn notices, a fourth warn included.
\<close>

lemma warns_ban_at_threshold:
  assumes owner: "from_user m = Some (OWNER_ID cfg)"
      and found: "get_user (store w) None (message_thread_id m) = Some u"
      and pk: "distinct (map user_id (users (store w)))"
      and delivered: "\<forall>k e. \<exists>v. T k e = Inr v"
      and calls_ok: "list_all (\<lambda>c. 2 \<le> length (snd c)) calls"
  shows "(\<exists>r. get_user (store (warn_run cfg T m calls w)) None (message_thread_id m) = Some r
              \<and> user_id r = user_id u
              \<and> warns r = warns u + int (length calls)
              \<and> (calls \<noteq> [] \<and> 3 \<le> warns r \<longrightarrow>
                    is_banned r \<and> ban_until r = None \<and> ban_reason r = Some AUTO_BAN_REASON)
              \<and> (warns r < 3 \<longrightarrow>
                    is_banned r = is_banned u \<and> ban_until r = ban_until u
                    \<and> ban_reason r = ban_reason u))
         \<and> fst (adm_warn cfg T now m (ts # reason # rest) w) = Inr ()
         \<and> trace (snd (adm_warn cfg T now m (ts # reason # rest) w))
             = trace w @
               [Answer (WarnIssued (anon_id u) (warns u + 1) reason),
                SendMessage (user_id u) None (WarnNotify (warns u + 1) reason)]
               @ (if 3 \<le> warns u + 1
                  then [Answer WarnLimitReached, SendMessage (user_id u) None WarnLimitBanned]
                  else [])"
proof (intro conjI)
  let ?r = "(after_warn ^^ length calls) u"
  have "get_user (store (warn_run cfg T m calls w)) None (message_thread_id m) = Some ?r"
    by (rule warn_run_row[OF owner delivered found pk calls_ok])
  moreover have "user_id ?r = user_id u" "warns ?r = warns u + int (length calls)"
    by (simp_all add: after_warn_iter)
  moreover have "calls \<noteq> [] \<and> 3 \<le> warns ?r \<longrightarrow>
                   is_banned ?r \<and> ban_until ?r = None \<and> ban_reason ?r = Some AUTO_BAN_REASON"
    using after_warn_banned[of "length calls" u] by (simp add: after_warn_iter)
  moreover have "warns ?r < 3 \<longrightarrow>
                   is_banned ?r = is_banned u \<and> ban_until ?r = ban_until u
                   \<and> ban_reason ?r = ban_reason u"
    using after_warn_below[of u "length calls"] by (simp add: after_warn_iter)
  ultimately show "\<exists>r. get_user (store (warn_run cfg T m calls w)) None (message_thread_id m) = Some r
              \<and> user_id r = user_id u
              \<and> warns r = warns u + int (length calls)
              \<and> (calls \<noteq> [] \<and> 3 \<le> warns r \<longrightarrow>
                    is_banned r \<and> ban_until r = None \<and> ban_reason r = Some AUTO_BAN_REASON)
              \<and> (warns r < 3 \<longrightarrow>
                    is_banned r = is_banned u \<and> ban_until r = ban_until u
                    \<and> ban_reason r = ban_reason u)"
    by blast
next
  show "fst (adm_warn cfg T now m (ts # reason # rest) w) = Inr ()"
    by (simp add: adm_warn_step[OF owner found pk delivered])
next
  show "trace (snd (adm_warn cfg T now m (ts # reason # rest) w))
             = trace w @
               [Answer (WarnIssued (anon_id u) (warns u + 1) reason),
                SendMessage (user_id u) None (WarnNotify (warns u + 1) reason)]
               @ (if 3 \<le> warns u + 1
                  then [Answer WarnLimitReached, SendMessage (user_id u) None WarnLimitBanned]
                  else [])"
    by (simp add: adm_warn_step[OF owner found pk delivered] warn_notices_def)
qed


text \<open>
  User 7 starts with no warns: two warns leave the user unbanned with count 2, three warns
  ban for good with count 3, four leave count 4 with the same ban; the fourth call sends
  the two ban notices again.
\<close>

lemma warns_ban_at_threshold_sample:
  "(\<exists>r. get_user (store (warn_run sample_config reliable (owner_command 5)
                              [(10, spam_warning), (20, spam_warning), (30, spam_warning)]
                              (sample_world [sample_user 7 (Some 5) 0]))) None (Some 5) = Some r
         \<and> warns r = 3 \<and> is_banned r \<and> ban_until r = None)
   \<and> (\<exists>r. get_user (store (warn_run sample_config reliable (owner_command 5)
                                [(10, spam_warning), (20, spam_warning), (30, spam_warning),
                                 (40, spam_warning)]
                                (sample_world [sample_user 7 (Some 5) 0]))) None (Some 5) = Some r
            \<and> warns r = 4 \<and> is_banned r \<and> ban_until r = None)
   \<and> map (\<lambda>r. (warns r, is_banned r, ban_until r))
         (users (store (warn_run sample_config reliable (owner_command 5)
                          [(10, spam_warning), (20, spam_warning)]
                          (sample_world [sample_user 7 (Some 5) 0]))))
       = [(2, False, None)]
   \<and> trace (snd (adm_warn sample_config reliable 40 (owner_command 5) spam_warning
                    (sample_world [sample_user 7 (Some 5) 3])))
       = [Answer (WarnIssued (anon_id (sample_user 7 (Some 5) 3)) 4 [115, 112, 97, 109]),
          SendMessage 7 None (WarnNotify 4 [115, 112, 97, 109]),
          Answer WarnLimitReached, SendMessage 7 None WarnLimitBanned]"
proof -
  let ?w = "sample_world [sample_user 7 (Some 5) 0]"
  let ?u = "sample_user 7 (Some 5) 0"
  let ?w3 = "sample_world [sample_user 7 (Some 5) 3]"
  let ?u3 = "sample_user 7 (Some 5) 3"
  have owner: "from_user (owner_command 5) = Some (OWNER_ID sample_config)"
    by (simp add: owner_command_def sample_config_def)
  have tid: "message_thread_id (owner_command 5) = Some 5"
    by (simp add: owner_command_def)
  have found: "get_user (store ?w) None (message_thread_id (owner_command 5)) = Some ?u"
    by (simp add: get_user_def truthy_def sample_defs)
  have found3: "get_user (store ?w3) None (message_thread_id (owner_command 5)) = Some ?u3"
    by (simp add: get_user_def truthy_def sample_defs)
  have pk: "distinct (map user_id (users (store ?w)))"
    by (simp add: sample_defs)
  have pk3: "distinct (map user_id (users (store ?w3)))"
    by (simp add: sample_defs)
  have delivered: "\<forall>k e. \<exists>v. reliable k e = Inr v"
    by (simp add: reliable_def)
  have ok3: "list_all (\<lambda>c. 2 \<le> length (snd c))
               [(10::int, spam_warning), (20, spam_warning), (30, spam_warning)]"
    and ok4: "list_all (\<lambda>c. 2 \<le> length (snd c))
               [(10::int, spam_warning), (20, spam_warning), (30, spam_warning), (40, spam_warning)]"
    by (simp_all add: spam_warning_def)
  have u0: "warns ?u = 0" "warns ?u3 = 3" "user_id ?u3 = 7"
    by (simp_all add: sample_user_def)
  note t3 = warns_ban_at_threshold[OF owner found pk delivered ok3, THEN conjunct1]
  note t4 = warns_ban_at_threshold[OF owner found pk delivered ok4, THEN conjunct1]
  note s4 = warns_ban_at_threshold[OF owner found3 pk3 delivered ok3,
      of 40 "[49, 104]" "[115, 112, 97, 109]" "[]", THEN conjunct2, THEN conjunct2]
  from t3 have a: "\<exists>r. get_user (store (warn_run sample_config reliable (owner_command 5)
                              [(10, spam_warning), (20, spam_warning), (30, spam_warning)] ?w))
                         None (Some 5) = Some r
                       \<and> warns r = 3 \<and> is_banned r \<and> ban_until r = None"
    unfolding tid u0 by auto
  from t4 have b: "\<exists>r. get_user (store (warn_run sample_config reliable (owner_command 5)
                              [(10, spam_warning), (20, spam_warning), (30, spam_warning),
                               (40, spam_warning)] ?w))
                         None (Some 5) = Some r
                       \<and> warns r = 4 \<and> is_banned r \<and> ban_until r = None"
    unfolding tid u0 by auto
  have c: "map (\<lambda>r. (warns r, is_banned r, ban_until r))
             (users (store (warn_run sample_config reliable (owner_command 5)
                              [(10, spam_warning), (20, spam_warning)] ?w)))
           = [(2, False, None)]"
    by (simp add: warn_run_def adm_warn_def spam_warning_def io_defs store_defs sample_defs Let_def)
  from s4 have d: "trace (snd (adm_warn sample_config reliable 40 (owner_command 5) spam_warning ?w3))
       = [Answer (WarnIssued (anon_id ?u3) 4 [115, 112, 97, 109]),
          SendMessage 7 None (WarnNotify 4 [115, 112, 97, 109]),
          Answer WarnLimitReached, SendMessage 7 None WarnLimitBanned]"
    unfolding u0 spam_warning_def by (simp add: sample_world_def)
  from a b c d show ?thesis by blast
qed

text \<open>
  C4. The claim: three warns leave the user with \<open>is_banned\<close> true and no
  \<open>ban_until\<close>, the ban being applied in the same warn call, so that no user is left at
  a warn count of 3 or more unbanned; a fourth warn is accepted. The code on user 7, who
  has two warns, is not banned and has blocked the bot: \<open>add_warn\<close> commits the count 3
  and its audit row, the notice in the staff thread is sent, and the notice to the user
  raises \<open>TelegramForbiddenError\<close>. The handler ends there, before its test
  \<open>w_count >= 3\<close>, so the ban is never written: the row holds a warn count of 3 with
  \<open>is_banned\<close> false. Four warns on such a user from a count of zero leave the count 4,
  still unbanned. The ban command meets the same exception only after it has written the
  ban.
\<close>

theorem third_warn_not_banned_when_notice_fails:
  "\<not> is_banned (sample_user 7 (Some 5) 2) \<and> warns (sample_user 7 (Some 5) 2) = 2
   \<and> (case adm_warn sample_config (user_blocked_bot 7) 30 (owner_command 5) spam_warning
              (sample_world [sample_user 7 (Some 5) 2]) of
         (r, w) \<Rightarrow>
           r = Inl TelegramForbiddenError
           \<and> map (\<lambda>r. (warns r, is_banned r, ban_until r)) (users (store w)) = [(3, False, None)]
           \<and> map warn_user_id (warns_history (store w)) = [7]
           \<and> trace w =
               [Answer (WarnIssued (anon_id (sample_user 7 (Some 5) 2)) 3 [115, 112, 97, 109]),
                SendMessage 7 None (WarnNotify 3 [115, 112, 97, 109])])
   \<and> map (\<lambda>r. (warns r, is_banned r, ban_until r))
         (users (store (warn_run sample_config (user_blocked_bot 7) (owner_command 5)
                          [(10, spam_warning), (20, spam_warning), (30, spam_warning),
                           (40, spam_warning)]
                          (sample_world [sample_user 7 (Some 5) 0]))))
       = [(4, False, None)]
   \<and> (case adm_ban sample_config (user_blocked_bot 7) 30 (owner_command 5) spam_warning
              (sample_world [sample_user 7 (Some 5) 2]) of
         (r, w) \<Rightarrow>
           r = Inl TelegramForbiddenError
           \<and> map (\<lambda>r. (warns r, is_banned r, ban_until r)) (users (store w))
               = [(2, True, Some 3600000030)])"
proof -
  have p: "parse_time [49, 104] = Inr (Some 3600000000)"
    by (simp add: parse_time_def py_defs)
  show ?thesis
    by (simp add: warn_run_def adm_warn_def adm_ban_def p datetime_add_def datetime_max_def
          spam_warning_def user_blocked_bot_def io_defs store_defs sample_defs Let_def)
qed

end
